theory Spec2Isabelle
  imports Complex_Main
begin

section \<open>The numeric arrays of the linear-algebra substrate\<close>

text \<open>
  The program under study is \<^verbatim>\<open>src/python/tinyekf/__init__.py\<close>, read as Python 3.
  It stores every matrix and vector in a two-dimensional array of the numeric library.
  The library is not part of the repository; the operations the program calls are
  modelled here by their documented behaviour on two-dimensional arrays, with the
  double-precision scalars idealised as real numbers. So the development speaks of
  which effects run, in which order, on which shapes and with which exceptions, and of
  the values in exact arithmetic; it does not speak of rounding. Where rounding decides
  whether the library raises, which is the case of the inversion, the program is also
  given with the library routine left open.

  An array carries its shape explicitly, so that an array with no row still has a
  column count, and its cells as a list of rows.
\<close>

record ndarray =
  nrows :: nat
  ncols :: nat
  cells :: "real list list"

definition mk :: "nat \<Rightarrow> nat \<Rightarrow> (nat \<Rightarrow> nat \<Rightarrow> real) \<Rightarrow> ndarray" where
  "mk r c g = \<lparr>nrows = r, ncols = c, cells = map (\<lambda>i. map (\<lambda>j. g i j) [0..<c]) [0..<r]\<rparr>"

definition cell :: "ndarray \<Rightarrow> nat \<Rightarrow> nat \<Rightarrow> real" where
  "cell a i j = cells a ! i ! j"

definition well_shaped :: "ndarray \<Rightarrow> bool" where
  "well_shaped a \<longleftrightarrow> length (cells a) = nrows a \<and> list_all (\<lambda>row. length row = ncols a) (cells a)"

definition has_shape :: "ndarray \<Rightarrow> nat \<Rightarrow> nat \<Rightarrow> bool" where
  "has_shape a r c \<longleftrightarrow> well_shaped a \<and> nrows a = r \<and> ncols a = c"

text \<open>Exceptions of the program, as values.\<close>

datatype error =
  TypeError
  | ValueError
  | IndexError
  | AttributeError
  | LinAlgError
  | NotImplementedError
  | SystemExit int

definition bind_e :: "error + 'a \<Rightarrow> ('a \<Rightarrow> error + 'b) \<Rightarrow> error + 'b" where
  "bind_e r k = (case r of Inl e \<Rightarrow> Inl e | Inr v \<Rightarrow> k v)"

text \<open>\<^verbatim>\<open>np.zeros((r, c))\<close> and \<^verbatim>\<open>np.eye(n, m)\<close>; the latter refuses a negative dimension.\<close>

definition np_zeros :: "nat \<Rightarrow> nat \<Rightarrow> ndarray" where
  "np_zeros r c = mk r c (\<lambda>i j. 0)"

definition np_eye :: "int \<Rightarrow> int \<Rightarrow> error + ndarray" where
  "np_eye n m =
     (if n < 0 \<or> m < 0 then Inl ValueError
      else Inr (mk (nat n) (nat m) (\<lambda>i j. if i = j then 1 else 0)))"

text \<open>\<^verbatim>\<open>np.dot\<close> of two two-dimensional arrays: the inner dimensions must agree.\<close>

definition np_dot :: "ndarray \<Rightarrow> ndarray \<Rightarrow> error + ndarray" where
  "np_dot a b =
     (if ncols a = nrows b
      then Inr (mk (nrows a) (ncols b)
                 (\<lambda>i j. sum_list (map (\<lambda>k. cell a i k * cell b k j) [0..<ncols a])))
      else Inl ValueError)"

text \<open>
  Elementwise \<^verbatim>\<open>+\<close> and \<^verbatim>\<open>-\<close> broadcast: along each axis the two lengths must be
  equal or one of them must be 1, and the operand of length 1 is repeated.
\<close>

definition bc_ok :: "nat \<Rightarrow> nat \<Rightarrow> bool" where
  "bc_ok k l \<longleftrightarrow> k = l \<or> k = 1 \<or> l = 1"

definition bc_len :: "nat \<Rightarrow> nat \<Rightarrow> nat" where
  "bc_len k l = (if k = 1 then l else k)"

definition bc_idx :: "nat \<Rightarrow> nat \<Rightarrow> nat" where
  "bc_idx k i = (if k = 1 then 0 else i)"

definition np_elementwise :: "(real \<Rightarrow> real \<Rightarrow> real) \<Rightarrow> ndarray \<Rightarrow> ndarray \<Rightarrow> error + ndarray" where
  "np_elementwise opr a b =
     (if bc_ok (nrows a) (nrows b) \<and> bc_ok (ncols a) (ncols b)
      then Inr (mk (bc_len (nrows a) (nrows b)) (bc_len (ncols a) (ncols b))
                 (\<lambda>i j. opr (cell a (bc_idx (nrows a) i) (bc_idx (ncols a) j))
                             (cell b (bc_idx (nrows b) i) (bc_idx (ncols b) j))))
      else Inl ValueError)"

definition np_add :: "ndarray \<Rightarrow> ndarray \<Rightarrow> error + ndarray" where
  "np_add = np_elementwise (\<lambda>u v. u + v)"

definition np_sub :: "ndarray \<Rightarrow> ndarray \<Rightarrow> error + ndarray" where
  "np_sub = np_elementwise (\<lambda>u v. u - v)"

definition np_scale :: "ndarray \<Rightarrow> real \<Rightarrow> ndarray" where
  "np_scale a k = mk (nrows a) (ncols a) (\<lambda>i j. cell a i j * k)"

definition np_T :: "ndarray \<Rightarrow> ndarray" where
  "np_T a = mk (ncols a) (nrows a) (\<lambda>i j. cell a j i)"

text \<open>
  \<^verbatim>\<open>np.linalg.inv\<close> raises \<^verbatim>\<open>LinAlgError\<close> on an array that is not square and when its
  factorisation meets a pivot that is exactly zero, and returns an inverse otherwise.
  \<open>linalg_inv\<close> is that routine in exact arithmetic: the determinant by expansion along
  the first row, failure where it is 0, and the inverse as the adjugate over the
  determinant. In double precision an array that is singular over the reals can have
  pivots that round to something other than zero and is then inverted without an
  exception; what the program does when the routine raises is therefore stated for an
  arbitrary routine (\<open>step_with\<close> below), and \<open>linalg_inv\<close> is used where the array is
  regular.
\<close>

definition del_at :: "nat \<Rightarrow> 'a list \<Rightarrow> 'a list" where
  "del_at i xs = take i xs @ drop (Suc i) xs"

function det :: "real list list \<Rightarrow> real" where
  "det [] = 1"
| "det (r # rs) =
     sum_list (map (\<lambda>j. (- 1) ^ j * (r ! j) * det (map (del_at j) rs)) [0..<length r])"
  by pat_completeness auto
termination
  by (relation "measure length") auto

definition minor :: "real list list \<Rightarrow> nat \<Rightarrow> nat \<Rightarrow> real list list" where
  "minor rs i j = map (del_at j) (del_at i rs)"

definition linalg_inv :: "ndarray \<Rightarrow> error + ndarray" where
  "linalg_inv a =
     (if nrows a \<noteq> ncols a then Inl LinAlgError
      else if det (cells a) = 0 then Inl LinAlgError
      else Inr (mk (nrows a) (ncols a)
                 (\<lambda>i j. (- 1) ^ (i + j) * det (minor (cells a) j i) / det (cells a))))"


section \<open>The matrix class\<close>

text \<open>
  A \<^verbatim>\<open>_Matrix\<close> object has one attribute, \<^verbatim>\<open>data\<close>, which is an array or Python's
  \<^verbatim>\<open>None\<close>. \<^verbatim>\<open>_Vector\<close> is a subclass with the same attribute and the same operators.
  No array is updated after it has been shared, so objects are modelled as values.
  Where one operand's \<^verbatim>\<open>data\<close> is \<^verbatim>\<open>None\<close>, the library combines \<^verbatim>\<open>None\<close> with every
  cell of the other array: that raises \<^verbatim>\<open>TypeError\<close> if the other array has a cell, and
  gives an array of the other's shape, with no cell, if it has none.
\<close>

definition no_cell :: "ndarray \<Rightarrow> bool" where
  "no_cell a \<longleftrightarrow> nrows a = 0 \<or> ncols a = 0"

definition with_None :: "ndarray \<Rightarrow> error + ndarray" where
  "with_None a = (if no_cell a then Inr (mk (nrows a) (ncols a) (\<lambda>i j. 0)) else Inl TypeError)"

record Matrix =
  data :: "ndarray option"

definition Matrix_init :: "int \<Rightarrow> int \<Rightarrow> Matrix" where
  "Matrix_init r c = \<lparr>data = (if r > 0 \<and> c > 0 then Some (np_zeros (nat r) (nat c)) else None)\<rparr>"

definition Vector_init :: "int \<Rightarrow> Matrix" where
  "Vector_init n = \<lparr>data = (if n > 0 then Some (np_zeros (nat n) 1) else None)\<rparr>"

text \<open>
  \<^verbatim>\<open>__mul__\<close> looks at the type name of its operand: a Python \<^verbatim>\<open>float\<close> or \<^verbatim>\<open>int\<close>
  scales a copy, anything else is taken to be a matrix and multiplied with \<^verbatim>\<open>np.dot\<close>.
\<close>

datatype operand = Num real | Obj Matrix

definition Matrix_mul :: "Matrix \<Rightarrow> operand \<Rightarrow> error + Matrix" where
  "Matrix_mul self other =
     (case other of
        Num k \<Rightarrow>
          (case data self of
             None \<Rightarrow> Inl TypeError
           | Some a \<Rightarrow> Inr \<lparr>data = Some (np_scale a k)\<rparr>)
      | Obj m \<Rightarrow>
          (case data self of
             None \<Rightarrow>
               (case data m of
                  None \<Rightarrow> Inl TypeError
                | Some b \<Rightarrow> bind_e (with_None b) (\<lambda>d. Inr \<lparr>data = Some d\<rparr>))
           | Some a \<Rightarrow>
               (case data m of
                  None \<Rightarrow> bind_e (with_None a) (\<lambda>d. Inr \<lparr>data = Some d\<rparr>)
                | Some b \<Rightarrow> bind_e (np_dot a b) (\<lambda>d. Inr \<lparr>data = Some d\<rparr>))))"

definition Matrix_add :: "Matrix \<Rightarrow> Matrix \<Rightarrow> error + Matrix" where
  "Matrix_add self other =
     (case data self of
        None \<Rightarrow>
          (case data other of
             None \<Rightarrow> Inl TypeError
           | Some b \<Rightarrow> bind_e (with_None b) (\<lambda>d. Inr \<lparr>data = Some d\<rparr>))
      | Some a \<Rightarrow>
          (case data other of
             None \<Rightarrow> bind_e (with_None a) (\<lambda>d. Inr \<lparr>data = Some d\<rparr>)
           | Some b \<Rightarrow> bind_e (np_add a b) (\<lambda>d. Inr \<lparr>data = Some d\<rparr>)))"

definition Matrix_sub :: "Matrix \<Rightarrow> Matrix \<Rightarrow> error + Matrix" where
  "Matrix_sub self other =
     (case data self of
        None \<Rightarrow>
          (case data other of
             None \<Rightarrow> Inl TypeError
           | Some b \<Rightarrow> bind_e (with_None b) (\<lambda>d. Inr \<lparr>data = Some d\<rparr>))
      | Some a \<Rightarrow>
          (case data other of
             None \<Rightarrow> bind_e (with_None a) (\<lambda>d. Inr \<lparr>data = Some d\<rparr>)
           | Some b \<Rightarrow> bind_e (np_sub a b) (\<lambda>d. Inr \<lparr>data = Some d\<rparr>)))"

text \<open>
  \<^verbatim>\<open>__getitem__\<close> and \<^verbatim>\<open>__setitem__\<close> hand the key to the array. A key is one integer
  (a row) or a pair of integers (a cell). The array accepts an index \<open>i\<close> on an axis of
  length \<open>len\<close> when \<open>- len \<le> i < len\<close>, a negative one counting from the end, and
  raises \<^verbatim>\<open>IndexError\<close> otherwise.
\<close>

datatype key = Idx int | Idx2 int int

datatype item = Scalar real | RowOf "real list"

definition norm_index :: "nat \<Rightarrow> int \<Rightarrow> nat option" where
  "norm_index len i =
     (if 0 \<le> i \<and> i < int len then Some (nat i)
      else if - int len \<le> i \<and> i < 0 then Some (nat (i + int len))
      else None)"

definition Matrix_getitem :: "Matrix \<Rightarrow> key \<Rightarrow> error + item" where
  "Matrix_getitem self k =
     (case data self of
        None \<Rightarrow> Inl TypeError
      | Some a \<Rightarrow>
          (case k of
             Idx i \<Rightarrow>
               (case norm_index (nrows a) i of
                  None \<Rightarrow> Inl IndexError
                | Some i' \<Rightarrow> Inr (RowOf (map (\<lambda>j. cell a i' j) [0..<ncols a])))
           | Idx2 i j \<Rightarrow>
               (case norm_index (nrows a) i of
                  None \<Rightarrow> Inl IndexError
                | Some i' \<Rightarrow>
                    (case norm_index (ncols a) j of
                       None \<Rightarrow> Inl IndexError
                     | Some j' \<Rightarrow> Inr (Scalar (cell a i' j'))))))"

definition Matrix_setitem :: "Matrix \<Rightarrow> key \<Rightarrow> real \<Rightarrow> error + Matrix" where
  "Matrix_setitem self k v =
     (case data self of
        None \<Rightarrow> Inl TypeError
      | Some a \<Rightarrow>
          (case k of
             Idx i \<Rightarrow>
               (case norm_index (nrows a) i of
                  None \<Rightarrow> Inl IndexError
                | Some i' \<Rightarrow>
                    Inr \<lparr>data = Some (mk (nrows a) (ncols a)
                                       (\<lambda>p q. if p = i' then v else cell a p q))\<rparr>)
           | Idx2 i j \<Rightarrow>
               (case norm_index (nrows a) i of
                  None \<Rightarrow> Inl IndexError
                | Some i' \<Rightarrow>
                    (case norm_index (ncols a) j of
                       None \<Rightarrow> Inl IndexError
                     | Some j' \<Rightarrow>
                         Inr \<lparr>data = Some (mk (nrows a) (ncols a)
                                            (\<lambda>p q. if p = i' \<and> q = j' then v else cell a p q))\<rparr>))))"

text \<open>\<^verbatim>\<open>asarray\<close> returns column 0 as a flat sequence.\<close>

definition Matrix_asarray :: "Matrix \<Rightarrow> error + real list" where
  "Matrix_asarray self =
     (case data self of
        None \<Rightarrow> Inl TypeError
      | Some a \<Rightarrow>
          (if ncols a = 0 then Inl IndexError
           else Inr (map (\<lambda>i. cell a i 0) [0..<nrows a])))"

text \<open>
  \<^verbatim>\<open>copy\<close>: the program copies only the sum it has just computed, which is an array;
  the copy of \<^verbatim>\<open>None\<close> is left as \<^verbatim>\<open>None\<close> here.
\<close>

definition Matrix_copy :: "Matrix \<Rightarrow> Matrix" where
  "Matrix_copy self = \<lparr>data = data self\<rparr>"

definition Matrix_transpose :: "Matrix \<Rightarrow> error + Matrix" where
  "Matrix_transpose self =
     (case data self of
        None \<Rightarrow> Inl AttributeError
      | Some a \<Rightarrow> Inr \<lparr>data = Some (np_T a)\<rparr>)"

text \<open>
  \<^verbatim>\<open>invert\<close> catches every exception of the inversion, prints the array and the
  exception, and calls \<^verbatim>\<open>exit(0)\<close>, which raises \<^verbatim>\<open>SystemExit\<close> with status 0: the
  interpreter ends unless a caller catches it. The printing is not modelled.
  \<open>Matrix_invert_with\<close> takes the library routine as its first argument;
  \<open>Matrix_invert\<close> is the method with the routine in exact arithmetic.
\<close>

definition Matrix_invert_with :: "(ndarray \<Rightarrow> error + ndarray) \<Rightarrow> Matrix \<Rightarrow> error + Matrix" where
  "Matrix_invert_with routine self =
     (case data self of
        None \<Rightarrow> Inl (SystemExit 0)
      | Some a \<Rightarrow>
          (case routine a of
             Inl e \<Rightarrow> Inl (SystemExit 0)
           | Inr b \<Rightarrow> Inr \<lparr>data = Some b\<rparr>))"

definition Matrix_invert :: "Matrix \<Rightarrow> error + Matrix" where
  "Matrix_invert self = Matrix_invert_with linalg_inv self"

text \<open>
  \<^verbatim>\<open>eye(n, m=0)\<close>: the second argument is optional and 0 when omitted; a second
  argument equal to 0 is replaced by \<open>n\<close>.
\<close>

definition Matrix_eye :: "int \<Rightarrow> int option \<Rightarrow> error + Matrix" where
  "Matrix_eye n m_arg =
     (let m0 = (case m_arg of None \<Rightarrow> 0 | Some m \<Rightarrow> m);
          m1 = (if m0 = 0 then n else m0)
      in bind_e (np_eye n m1) (\<lambda>d. Inr \<lparr>data = Some d\<rparr>))"

definition Matrix_fromData :: "ndarray option \<Rightarrow> Matrix" where
  "Matrix_fromData d = \<lparr>data = d\<rparr>"

definition Vector_fromData :: "ndarray option \<Rightarrow> Matrix" where
  "Vector_fromData d = \<lparr>data = d\<rparr>"

text \<open>\<^verbatim>\<open>fromTuple\<close>: a fresh vector of the tuple's length, filled row by row.\<close>

fun fromTuple_loop :: "real list \<Rightarrow> nat list \<Rightarrow> Matrix \<Rightarrow> error + Matrix" where
  "fromTuple_loop t [] v = Inr v"
| "fromTuple_loop t (k # ks) v =
     (case Matrix_setitem v (Idx (int k)) (t ! k) of
        Inl e \<Rightarrow> Inl e
      | Inr v' \<Rightarrow> fromTuple_loop t ks v')"

definition Vector_fromTuple :: "real list \<Rightarrow> error + Matrix" where
  "Vector_fromTuple t = fromTuple_loop t [0..<length t] (Vector_init (int (length t)))"

section \<open>The filter\<close>

text \<open>
  The four model functions are methods that a subclass overrides; the base class
  raises \<^verbatim>\<open>NotImplementedError\<close> in each. A model says which of them the subclass
  supplies. The class attribute \<^verbatim>\<open>__metaclass__\<close> has no effect in Python 3, so the
  decorators do not stop a subclass that leaves a method out from being instantiated.
  The supplied functions are taken to be pure and total. \<^verbatim>\<open>getF\<close> and \<^verbatim>\<open>getH\<close> receive
  the vector object, \<^verbatim>\<open>f\<close> and \<^verbatim>\<open>h\<close> its array.
\<close>

record model =
  cb_f :: "(ndarray option \<Rightarrow> ndarray option) option"
  cb_getF :: "(Matrix \<Rightarrow> ndarray option) option"
  cb_h :: "(ndarray option \<Rightarrow> ndarray option) option"
  cb_getH :: "(Matrix \<Rightarrow> ndarray option) option"

definition EKF_f :: "model \<Rightarrow> ndarray option \<Rightarrow> error + ndarray option" where
  "EKF_f mdl d = (case cb_f mdl of None \<Rightarrow> Inl NotImplementedError | Some g \<Rightarrow> Inr (g d))"

definition EKF_getF :: "model \<Rightarrow> Matrix \<Rightarrow> error + ndarray option" where
  "EKF_getF mdl v = (case cb_getF mdl of None \<Rightarrow> Inl NotImplementedError | Some g \<Rightarrow> Inr (g v))"

definition EKF_h :: "model \<Rightarrow> ndarray option \<Rightarrow> error + ndarray option" where
  "EKF_h mdl d = (case cb_h mdl of None \<Rightarrow> Inl NotImplementedError | Some g \<Rightarrow> Inr (g d))"

definition EKF_getH :: "model \<Rightarrow> Matrix \<Rightarrow> error + ndarray option" where
  "EKF_getH mdl v = (case cb_getH mdl of None \<Rightarrow> Inl NotImplementedError | Some g \<Rightarrow> Inr (g v))"

text \<open>
  The attributes of a filter. \<open>calls\<close> is not an attribute of the program: it records,
  in order, each supplied model function the filter has invoked and the argument it
  was given, so that how often and where the functions are evaluated can be stated.
\<close>

datatype call =
  Called_f "ndarray option"
  | Called_getF Matrix
  | Called_h "ndarray option"
  | Called_getH Matrix

record EKF =
  self_P_pre :: "Matrix option"
  self_x :: Matrix
  self_P_post :: Matrix
  self_F :: Matrix
  self_H :: Matrix
  self_Q :: Matrix
  self_R :: Matrix
  self_I :: Matrix
  calls :: "call list"

text \<open>\<^verbatim>\<open>__init__\<close>, statement by statement; an exception leaves no object behind.\<close>

definition EKF_init :: "model \<Rightarrow> int \<Rightarrow> int \<Rightarrow> real \<Rightarrow> real \<Rightarrow> real \<Rightarrow> error + EKF" where
  "EKF_init mdl n m pval qval rval =
     (let x0 = Vector_init n in
      bind_e (bind_e (Matrix_eye n None) (\<lambda>e. Matrix_mul e (Num pval))) (\<lambda>P0.
      bind_e (EKF_getF mdl x0) (\<lambda>dF.
      bind_e (EKF_getH mdl x0) (\<lambda>dH.
      bind_e (bind_e (Matrix_eye n None) (\<lambda>e. Matrix_mul e (Num qval))) (\<lambda>Q0.
      bind_e (bind_e (Matrix_eye m None) (\<lambda>e. Matrix_mul e (Num rval))) (\<lambda>R0.
      bind_e (Matrix_eye n None) (\<lambda>I0.
        Inr \<lparr>self_P_pre = None, self_x = x0, self_P_post = P0,
             self_F = Matrix_fromData dF, self_H = Matrix_fromData dH,
             self_Q = Q0, self_R = R0, self_I = I0,
             calls = [Called_getF x0, Called_getH x0]\<rparr>)))))))"

text \<open>
  The right-hand sides of lines 63, 70, 73 and 76, in Python's order of evaluation.
  Line 70 is the one that inverts: \<open>gain_with\<close> takes the library routine as its first
  argument, and \<open>gain\<close> is the line with the routine in exact arithmetic.
\<close>

definition predict_P :: "EKF \<Rightarrow> error + Matrix" where
  "predict_P s =
     bind_e (Matrix_mul (self_F s) (Obj (self_P_post s))) (\<lambda>FP.
     bind_e (Matrix_transpose (self_F s)) (\<lambda>Ft.
     bind_e (Matrix_mul FP (Obj Ft)) (\<lambda>FPFt.
     Matrix_add FPFt (self_Q s))))"

definition gain_with :: "(ndarray \<Rightarrow> error + ndarray) \<Rightarrow> EKF \<Rightarrow> error + Matrix" where
  "gain_with routine s =
     bind_e (Matrix_transpose (self_H s)) (\<lambda>Ht.
     (case self_P_pre s of
        None \<Rightarrow> Inl TypeError
      | Some P \<Rightarrow>
          bind_e (Matrix_mul P (Obj Ht)) (\<lambda>PHt.
          bind_e (Matrix_mul (self_H s) (Obj P)) (\<lambda>HP.
          bind_e (Matrix_transpose (self_H s)) (\<lambda>Ht2.
          bind_e (Matrix_mul HP (Obj Ht2)) (\<lambda>HPHt.
          bind_e (Matrix_add HPHt (self_R s)) (\<lambda>S.
          bind_e (Matrix_invert_with routine S) (\<lambda>Si.
          Matrix_mul PHt (Obj Si)))))))))"

definition gain :: "EKF \<Rightarrow> error + Matrix" where
  "gain s = gain_with linalg_inv s"

definition update_x :: "Matrix \<Rightarrow> Matrix \<Rightarrow> ndarray option \<Rightarrow> EKF \<Rightarrow> error + Matrix" where
  "update_x G zv dh s =
     bind_e (Matrix_sub zv (Vector_fromData dh)) (\<lambda>innov.
     bind_e (Matrix_mul G (Obj innov)) (\<lambda>corr.
     Matrix_add (self_x s) corr))"

definition update_P :: "Matrix \<Rightarrow> EKF \<Rightarrow> error + Matrix" where
  "update_P G s =
     bind_e (Matrix_mul G (Obj (self_H s))) (\<lambda>GH.
     bind_e (Matrix_sub (self_I s) GH) (\<lambda>IGH.
     (case self_P_pre s of
        None \<Rightarrow> Inl AttributeError
      | Some P \<Rightarrow> Matrix_mul IGH (Obj P))))"

text \<open>
  \<^verbatim>\<open>step\<close>: the result is the returned sequence or the exception raised, together with
  the filter as the call leaves it. Each assignment stores its value only after its
  right-hand side has been evaluated, so a statement that raises leaves the filter as
  the statements before it made it. \<open>step_with\<close> takes the library's inversion routine
  as its first argument; \<open>step\<close> is the method with the routine in exact arithmetic.
\<close>

definition step_with ::
  "(ndarray \<Rightarrow> error + ndarray) \<Rightarrow> model \<Rightarrow> EKF \<Rightarrow> real list \<Rightarrow> (error + real list) \<times> EKF" where
  "step_with routine mdl s0 z =
     (case EKF_f mdl (data (self_x s0)) of
        Inl e \<Rightarrow> (Inl e, s0)
      | Inr d1 \<Rightarrow>
     let s1 = s0\<lparr>self_x := Vector_fromData d1,
                 calls := calls s0 @ [Called_f (data (self_x s0))]\<rparr> in
     (case predict_P s1 of
        Inl e \<Rightarrow> (Inl e, s1)
      | Inr p \<Rightarrow>
     let s2 = s1\<lparr>self_P_pre := Some p\<rparr>;
         s3 = s2\<lparr>self_P_post := Matrix_copy p\<rparr> in
     (case gain_with routine s3 of
        Inl e \<Rightarrow> (Inl e, s3)
      | Inr G \<Rightarrow>
     (case Vector_fromTuple z of
        Inl e \<Rightarrow> (Inl e, s3)
      | Inr zv \<Rightarrow>
     (case EKF_h mdl (data (self_x s3)) of
        Inl e \<Rightarrow> (Inl e, s3)
      | Inr dh \<Rightarrow>
     let s4 = s3\<lparr>calls := calls s3 @ [Called_h (data (self_x s3))]\<rparr> in
     (case update_x G zv dh s4 of
        Inl e \<Rightarrow> (Inl e, s4)
      | Inr x' \<Rightarrow>
     let s5 = s4\<lparr>self_x := x'\<rparr> in
     (case update_P G s5 of
        Inl e \<Rightarrow> (Inl e, s5)
      | Inr p' \<Rightarrow>
     let s6 = s5\<lparr>self_P_post := p'\<rparr> in
     (case Matrix_asarray (self_x s6) of
        Inl e \<Rightarrow> (Inl e, s6)
      | Inr out \<Rightarrow> (Inr out, s6)))))))))"

definition step :: "model \<Rightarrow> EKF \<Rightarrow> real list \<Rightarrow> (error + real list) \<times> EKF" where
  "step mdl s0 z = step_with linalg_inv mdl s0 z"


text \<open>The filter after a sequence of \<^verbatim>\<open>step\<close> calls, whatever each call's outcome.\<close>

fun run :: "model \<Rightarrow> EKF \<Rightarrow> real list list \<Rightarrow> EKF" where
  "run mdl s [] = s"
| "run mdl s (z # zs) = run mdl (snd (step mdl s z)) zs"

section \<open>The recursion as the specification words it\<close>

text \<open>
  Matrix algebra without failure cases: product, sum, difference and inverse of
  arrays whose shapes fit, a sequence as a column, and a column as a sequence.
\<close>

definition mat_mul :: "ndarray \<Rightarrow> ndarray \<Rightarrow> ndarray" where
  "mat_mul a b =
     mk (nrows a) (ncols b) (\<lambda>i j. sum_list (map (\<lambda>k. cell a i k * cell b k j) [0..<ncols a]))"

definition mat_add :: "ndarray \<Rightarrow> ndarray \<Rightarrow> ndarray" where
  "mat_add a b = mk (nrows a) (ncols a) (\<lambda>i j. cell a i j + cell b i j)"

definition mat_sub :: "ndarray \<Rightarrow> ndarray \<Rightarrow> ndarray" where
  "mat_sub a b = mk (nrows a) (ncols a) (\<lambda>i j. cell a i j - cell b i j)"

definition mat_inv :: "ndarray \<Rightarrow> ndarray" where
  "mat_inv a =
     mk (nrows a) (ncols a) (\<lambda>i j. (- 1) ^ (i + j) * det (minor (cells a) j i) / det (cells a))"

definition singular :: "ndarray \<Rightarrow> bool" where
  "singular a \<longleftrightarrow> det (cells a) = 0"

definition column :: "real list \<Rightarrow> ndarray" where
  "column z = mk (length z) 1 (\<lambda>i j. z ! i)"

definition flat :: "ndarray \<Rightarrow> real list" where
  "flat a = map (\<lambda>i. cell a i 0) [0..<nrows a]"

definition arr :: "Matrix \<Rightarrow> ndarray" where
  "arr M = the (data M)"

text \<open>The quantities of one step, named as in the specification.\<close>

definition spec_x_pred :: "model \<Rightarrow> EKF \<Rightarrow> ndarray" where
  "spec_x_pred mdl s = the (the (cb_f mdl) (data (self_x s)))"

definition spec_P_pre :: "EKF \<Rightarrow> ndarray" where
  "spec_P_pre s =
     mat_add (mat_mul (mat_mul (arr (self_F s)) (arr (self_P_post s))) (np_T (arr (self_F s))))
             (arr (self_Q s))"

definition cov_of :: "ndarray \<Rightarrow> ndarray \<Rightarrow> ndarray \<Rightarrow> ndarray" where
  "cov_of H P R = mat_add (mat_mul (mat_mul H P) (np_T H)) R"

definition gain_of :: "ndarray \<Rightarrow> ndarray \<Rightarrow> ndarray \<Rightarrow> ndarray" where
  "gain_of H P R = mat_mul (mat_mul P (np_T H)) (mat_inv (cov_of H P R))"

definition spec_S :: "EKF \<Rightarrow> ndarray" where
  "spec_S s = cov_of (arr (self_H s)) (spec_P_pre s) (arr (self_R s))"

definition spec_G :: "EKF \<Rightarrow> ndarray" where
  "spec_G s = gain_of (arr (self_H s)) (spec_P_pre s) (arr (self_R s))"

definition spec_h_pred :: "model \<Rightarrow> EKF \<Rightarrow> ndarray" where
  "spec_h_pred mdl s = the (the (cb_h mdl) (Some (spec_x_pred mdl s)))"

definition spec_x_upd :: "model \<Rightarrow> EKF \<Rightarrow> real list \<Rightarrow> ndarray" where
  "spec_x_upd mdl s z =
     mat_add (spec_x_pred mdl s) (mat_mul (spec_G s) (mat_sub (column z) (spec_h_pred mdl s)))"

definition spec_P_post :: "EKF \<Rightarrow> ndarray" where
  "spec_P_post s =
     mat_mul (mat_sub (arr (self_I s)) (mat_mul (spec_G s) (arr (self_H s)))) (spec_P_pre s)"

definition spec_step :: "model \<Rightarrow> EKF \<Rightarrow> real list \<Rightarrow> real list \<times> EKF" where
  "spec_step mdl s z =
     (flat (spec_x_upd mdl s z),
      s\<lparr>self_P_pre := Some \<lparr>data = Some (spec_P_pre s)\<rparr>,
        self_x := \<lparr>data = Some (spec_x_upd mdl s z)\<rparr>,
        self_P_post := \<lparr>data = Some (spec_P_post s)\<rparr>,
        calls := calls s @ [Called_f (data (self_x s)), Called_h (Some (spec_x_pred mdl s))]\<rparr>)"

text \<open>The filter that a step interrupted after the prediction leaves behind.\<close>

definition predicted :: "model \<Rightarrow> EKF \<Rightarrow> EKF" where
  "predicted mdl s =
     s\<lparr>self_P_pre := Some \<lparr>data = Some (spec_P_pre s)\<rparr>,
       self_x := \<lparr>data = Some (spec_x_pred mdl s)\<rparr>,
       self_P_post := \<lparr>data = Some (spec_P_pre s)\<rparr>,
       calls := calls s @ [Called_f (data (self_x s))]\<rparr>"


text \<open>
  Shapes. A state of dimension \<open>n\<close> is an \<open>n \<times> 1\<close> array; the model functions are
  well-shaped when \<open>f\<close> maps a state to a state, \<open>h\<close> maps a state to an \<open>m \<times> 1\<close> array,
  and \<open>getF\<close>, \<open>getH\<close> return an \<open>n \<times> n\<close> and an \<open>m \<times> n\<close> array.
\<close>

definition is_shape :: "Matrix \<Rightarrow> nat \<Rightarrow> nat \<Rightarrow> bool" where
  "is_shape M r c = (case data M of None \<Rightarrow> False | Some a \<Rightarrow> has_shape a r c)"

definition shapes_ok :: "nat \<Rightarrow> nat \<Rightarrow> EKF \<Rightarrow> bool" where
  "shapes_ok n m s \<longleftrightarrow>
     is_shape (self_x s) n 1 \<and> is_shape (self_P_post s) n n \<and> is_shape (self_F s) n n
     \<and> is_shape (self_H s) m n \<and> is_shape (self_Q s) n n \<and> is_shape (self_R s) m m
     \<and> is_shape (self_I s) n n"

definition maps_shape ::
  "(ndarray option \<Rightarrow> ndarray option) option \<Rightarrow> nat \<Rightarrow> nat \<Rightarrow> nat \<Rightarrow> nat \<Rightarrow> bool" where
  "maps_shape cb r c r' c' =
     (case cb of
        None \<Rightarrow> False
      | Some g \<Rightarrow> (\<forall>a. has_shape a r c \<longrightarrow> is_shape \<lparr>data = g (Some a)\<rparr> r' c'))"

definition gives_shape :: "(Matrix \<Rightarrow> ndarray option) option \<Rightarrow> nat \<Rightarrow> nat \<Rightarrow> nat \<Rightarrow> bool" where
  "gives_shape cb n r' c' =
     (case cb of
        None \<Rightarrow> False
      | Some g \<Rightarrow> (\<forall>v. is_shape v n 1 \<longrightarrow> is_shape \<lparr>data = g v\<rparr> r' c'))"

definition callbacks_ok :: "nat \<Rightarrow> nat \<Rightarrow> model \<Rightarrow> bool" where
  "callbacks_ok n m mdl \<longleftrightarrow>
     maps_shape (cb_f mdl) n 1 n 1 \<and> gives_shape (cb_getF mdl) n n n
     \<and> maps_shape (cb_h mdl) n 1 m 1 \<and> gives_shape (cb_getH mdl) n m n"

text \<open>The zero state and a multiple of the identity, for the constructor.\<close>

definition zero_vector :: "nat \<Rightarrow> ndarray" where
  "zero_vector n = mk n 1 (\<lambda>i j. 0)"

definition scaled_identity :: "nat \<Rightarrow> real \<Rightarrow> ndarray" where
  "scaled_identity n k = mk n n (\<lambda>i j. if i = j then k else 0)"

text \<open>The calls that compute a Jacobian.\<close>

fun jacobian_call :: "call \<Rightarrow> bool" where
  "jacobian_call (Called_getF v) = True"
| "jacobian_call (Called_getH v) = True"
| "jacobian_call (Called_f d) = False"
| "jacobian_call (Called_h d) = False"

section \<open>Example models\<close>

text \<open>
  The scalar system with \<open>f\<close> and \<open>h\<close> the identity and both Jacobians 1, and a system
  with one state observed twice.
\<close>

definition scalar_model :: model where
  "scalar_model =
     \<lparr>cb_f = Some (\<lambda>d. d), cb_getF = Some (\<lambda>v. Some (mk 1 1 (\<lambda>i j. 1))),
      cb_h = Some (\<lambda>d. d), cb_getH = Some (\<lambda>v. Some (mk 1 1 (\<lambda>i j. 1)))\<rparr>"

definition twice_model :: model where
  "twice_model =
     \<lparr>cb_f = Some (\<lambda>d. d), cb_getF = Some (\<lambda>v. Some (mk 1 1 (\<lambda>i j. 1))),
      cb_h = Some (\<lambda>d. case d of None \<Rightarrow> None | Some a \<Rightarrow> Some (mk 2 1 (\<lambda>i j. cell a 0 0))),
      cb_getH = Some (\<lambda>v. Some (mk 2 1 (\<lambda>i j. 1)))\<rparr>"

text \<open>A subclass that supplies every model function but \<open>f\<close>.\<close>

definition no_f_model :: model where
  "no_f_model =
     \<lparr>cb_f = None, cb_getF = Some (\<lambda>v. Some (mk 1 1 (\<lambda>i j. 1))),
      cb_h = Some (\<lambda>d. d), cb_getH = Some (\<lambda>v. Some (mk 1 1 (\<lambda>i j. 1)))\<rparr>"

text \<open>The filter after \<open>k\<close> steps with the same measurement.\<close>

definition steps :: "model \<Rightarrow> real list \<Rightarrow> nat \<Rightarrow> EKF \<Rightarrow> EKF" where
  "steps mdl z k s = ((\<lambda>t. snd (step mdl t z)) ^^ k) s"

definition example_matrix :: Matrix where
  "example_matrix = \<lparr>data = Some \<lparr>nrows = 2, ncols = 2, cells = [[1, 2], [3, 4]]\<rparr>\<rparr>"

text \<open>A model whose observation ignores the state: its Jacobian \<open>H\<close> is zero.\<close>

definition blind_model :: model where
  "blind_model =
     \<lparr>cb_f = Some (\<lambda>d. d), cb_getF = Some (\<lambda>v. Some (mk 1 1 (\<lambda>i j. 1))),
      cb_h = Some (\<lambda>d. Some (mk 1 1 (\<lambda>i j. 0))), cb_getH = Some (\<lambda>v. Some (mk 1 1 (\<lambda>i j. 0)))\<rparr>"

text \<open>A \<open>1 \<times> 1\<close> array, and filters of the example models as the constructor returns them.\<close>

definition scalar :: "real \<Rightarrow> ndarray" where
  "scalar v = \<lparr>nrows = 1, ncols = 1, cells = [[v]]\<rparr>"

definition scalar_filter :: "real \<Rightarrow> real \<Rightarrow> real \<Rightarrow> real \<Rightarrow> real \<Rightarrow> EKF" where
  "scalar_filter xv pval qval rval hv =
     \<lparr>self_P_pre = None, self_x = \<lparr>data = Some (scalar xv)\<rparr>,
      self_P_post = \<lparr>data = Some (scalar pval)\<rparr>,
      self_F = \<lparr>data = Some (scalar 1)\<rparr>, self_H = \<lparr>data = Some (scalar hv)\<rparr>,
      self_Q = \<lparr>data = Some (scalar qval)\<rparr>, self_R = \<lparr>data = Some (scalar rval)\<rparr>,
      self_I = \<lparr>data = Some (scalar 1)\<rparr>,
      calls = [Called_getF \<lparr>data = Some (scalar 0)\<rparr>, Called_getH \<lparr>data = Some (scalar 0)\<rparr>]\<rparr>"


definition P_post_value :: "EKF \<Rightarrow> real" where
  "P_post_value s = cell (arr (self_P_post s)) 0 0"

text \<open>
  The filters of the scalar system with \<open>F = H = 1\<close>, no process noise, measurement
  noise \<open>r\<close> and covariance \<open>p\<close>.
\<close>

definition scalar_state :: "real \<Rightarrow> real \<Rightarrow> EKF \<Rightarrow> bool" where
  "scalar_state r p s \<longleftrightarrow>
     is_shape (self_x s) 1 1 \<and> self_P_post s = \<lparr>data = Some (scalar p)\<rparr>
     \<and> self_F s = \<lparr>data = Some (scalar 1)\<rparr> \<and> self_H s = \<lparr>data = Some (scalar 1)\<rparr>
     \<and> self_Q s = \<lparr>data = Some (scalar 0)\<rparr> \<and> self_R s = \<lparr>data = Some (scalar r)\<rparr>
     \<and> self_I s = \<lparr>data = Some (scalar 1)\<rparr>"

section \<open>Arrays built cell by cell\<close>

lemma nrows_mk [simp]: "nrows (mk r c g) = r"
  by (simp add: mk_def)

lemma ncols_mk [simp]: "ncols (mk r c g) = c"
  by (simp add: mk_def)

lemma cell_mk [simp]: "i < r \<Longrightarrow> j < c \<Longrightarrow> cell (mk r c g) i j = g i j"
  by (simp add: mk_def cell_def)

lemma well_shaped_mk [simp]: "well_shaped (mk r c g)"
  by (simp add: mk_def well_shaped_def list_all_iff)

lemma has_shape_mk [simp]: "has_shape (mk r c g) r' c' \<longleftrightarrow> r = r' \<and> c = c'"
  by (auto simp add: has_shape_def)

lemma mk_cong: "(\<And>i j. i < r \<Longrightarrow> j < c \<Longrightarrow> g i j = g' i j) \<Longrightarrow> mk r c g = mk r c g'"
  by (simp add: mk_def)

lemma mk_cells: "well_shaped a \<Longrightarrow> mk (nrows a) (ncols a) (cell a) = a"
proof -
  assume w: "well_shaped a"
  have "map (\<lambda>i. map (\<lambda>j. cells a ! i ! j) [0..<ncols a]) [0..<nrows a] = cells a"
  proof (rule nth_equalityI)
    show "length (map (\<lambda>i. map (\<lambda>j. cells a ! i ! j) [0..<ncols a]) [0..<nrows a]) = length (cells a)"
      using w by (simp add: well_shaped_def)
  next
    fix i assume "i < length (map (\<lambda>i. map (\<lambda>j. cells a ! i ! j) [0..<ncols a]) [0..<nrows a])"
    then have i: "i < nrows a" by simp
    then have "length (cells a ! i) = ncols a"
      using w by (simp add: well_shaped_def list_all_length)
    then have "map (\<lambda>j. cells a ! i ! j) [0..<ncols a] = cells a ! i"
      by (metis map_nth)
    then show "map (\<lambda>i. map (\<lambda>j. cells a ! i ! j) [0..<ncols a]) [0..<nrows a] ! i = cells a ! i"
      using i by simp
  qed
  then show ?thesis
    by (simp add: mk_def cell_def)
qed

section \<open>The operators where the shapes fit\<close>

lemma bind_e_Inr [simp]: "bind_e (Inr v) k = k v"
  by (simp add: bind_e_def)

lemma bind_e_Inl [simp]: "bind_e (Inl e) k = Inl e"
  by (simp add: bind_e_def)

lemma nrows_mat_mul [simp]: "nrows (mat_mul a b) = nrows a"
  and ncols_mat_mul [simp]: "ncols (mat_mul a b) = ncols b"
  and nrows_mat_add [simp]: "nrows (mat_add a b) = nrows a"
  and ncols_mat_add [simp]: "ncols (mat_add a b) = ncols a"
  and nrows_mat_sub [simp]: "nrows (mat_sub a b) = nrows a"
  and ncols_mat_sub [simp]: "ncols (mat_sub a b) = ncols a"
  and nrows_np_T [simp]: "nrows (np_T a) = ncols a"
  and ncols_np_T [simp]: "ncols (np_T a) = nrows a"
  and nrows_mat_inv [simp]: "nrows (mat_inv a) = nrows a"
  and ncols_mat_inv [simp]: "ncols (mat_inv a) = ncols a"
  and nrows_column [simp]: "nrows (column z) = length z"
  and ncols_column [simp]: "ncols (column z) = 1"
  by (simp_all add: mat_mul_def mat_add_def mat_sub_def np_T_def mat_inv_def column_def)

lemma length_flat [simp]: "length (flat a) = nrows a"
  by (simp add: flat_def)

lemma np_dot_fits: "ncols a = nrows b \<Longrightarrow> np_dot a b = Inr (mat_mul a b)"
  by (simp add: np_dot_def mat_mul_def)

lemma np_dot_misfit: "ncols a \<noteq> nrows b \<Longrightarrow> np_dot a b = Inl ValueError"
  by (simp add: np_dot_def)

lemma np_add_same: "nrows a = nrows b \<Longrightarrow> ncols a = ncols b \<Longrightarrow> np_add a b = Inr (mat_add a b)"
  unfolding np_add_def np_elementwise_def mat_add_def bc_ok_def bc_len_def bc_idx_def
  by (auto intro!: mk_cong)

lemma np_sub_same: "nrows a = nrows b \<Longrightarrow> ncols a = ncols b \<Longrightarrow> np_sub a b = Inr (mat_sub a b)"
  unfolding np_sub_def np_elementwise_def mat_sub_def bc_ok_def bc_len_def bc_idx_def
  by (auto intro!: mk_cong)

lemma Matrix_mul_fits:
  "data A = Some a \<Longrightarrow> data B = Some b \<Longrightarrow> ncols a = nrows b
   \<Longrightarrow> Matrix_mul A (Obj B) = Inr \<lparr>data = Some (mat_mul a b)\<rparr>"
  by (simp add: Matrix_mul_def np_dot_fits)

lemma Matrix_mul_misfit:
  "data A = Some a \<Longrightarrow> data B = Some b \<Longrightarrow> ncols a \<noteq> nrows b
   \<Longrightarrow> Matrix_mul A (Obj B) = Inl ValueError"
  by (simp add: Matrix_mul_def np_dot_misfit)

lemma Matrix_add_same:
  "data A = Some a \<Longrightarrow> data B = Some b \<Longrightarrow> nrows a = nrows b \<Longrightarrow> ncols a = ncols b
   \<Longrightarrow> Matrix_add A B = Inr \<lparr>data = Some (mat_add a b)\<rparr>"
  by (simp add: Matrix_add_def np_add_same)

lemma Matrix_sub_same:
  "data A = Some a \<Longrightarrow> data B = Some b \<Longrightarrow> nrows a = nrows b \<Longrightarrow> ncols a = ncols b
   \<Longrightarrow> Matrix_sub A B = Inr \<lparr>data = Some (mat_sub a b)\<rparr>"
  by (simp add: Matrix_sub_def np_sub_same)

lemma Matrix_transpose_array:
  "data A = Some a \<Longrightarrow> Matrix_transpose A = Inr \<lparr>data = Some (np_T a)\<rparr>"
  by (simp add: Matrix_transpose_def)

lemma linalg_inv_regular:
  "nrows a = ncols a \<Longrightarrow> \<not> singular a \<Longrightarrow> linalg_inv a = Inr (mat_inv a)"
  by (simp add: linalg_inv_def singular_def mat_inv_def)

lemma linalg_inv_singular: "singular a \<Longrightarrow> linalg_inv a = Inl LinAlgError"
  by (simp add: linalg_inv_def singular_def)

lemma Matrix_invert_with_fails:
  "data A = Some a \<Longrightarrow> routine a = Inl e \<Longrightarrow> Matrix_invert_with routine A = Inl (SystemExit 0)"
  by (simp add: Matrix_invert_with_def)

lemma Matrix_invert_regular:
  "data A = Some a \<Longrightarrow> nrows a = ncols a \<Longrightarrow> \<not> singular a
   \<Longrightarrow> Matrix_invert_with linalg_inv A = Inr \<lparr>data = Some (mat_inv a)\<rparr>"
  by (simp add: Matrix_invert_with_def linalg_inv_regular)

lemma Matrix_invert_singular:
  "data A = Some a \<Longrightarrow> singular a \<Longrightarrow> Matrix_invert_with linalg_inv A = Inl (SystemExit 0)"
  by (simp add: Matrix_invert_with_def linalg_inv_singular)

lemma Matrix_asarray_flat:
  "data A = Some a \<Longrightarrow> ncols a \<noteq> 0 \<Longrightarrow> Matrix_asarray A = Inr (flat a)"
  by (simp add: Matrix_asarray_def flat_def)

lemma norm_index_nat: "k < len \<Longrightarrow> norm_index len (int k) = Some k"
  by (simp add: norm_index_def)

lemma fromTuple_loop_fills:
  "\<forall>k \<in> set ks. k < nrows a \<Longrightarrow>
   fromTuple_loop t ks \<lparr>data = Some a\<rparr>
     = Inr \<lparr>data = Some (mk (nrows a) (ncols a) (\<lambda>i j. if i \<in> set ks then t ! i else cell a i j))\<rparr>"
  if "well_shaped a"
  using that
proof (induction ks arbitrary: a)
  case Nil
  then show ?case by (simp add: mk_cells)
next
  case (Cons k ks)
  let ?a' = "mk (nrows a) (ncols a) (\<lambda>p q. if p = k then t ! k else cell a p q)"
  from Cons.prems have k: "k < nrows a" and ks: "\<forall>k \<in> set ks. k < nrows ?a'"
    by simp_all
  have set: "Matrix_setitem \<lparr>data = Some a\<rparr> (Idx (int k)) (t ! k) = Inr \<lparr>data = Some ?a'\<rparr>"
    using k by (simp add: Matrix_setitem_def norm_index_nat)
  have "fromTuple_loop t ks \<lparr>data = Some ?a'\<rparr>
          = Inr \<lparr>data = Some (mk (nrows ?a') (ncols ?a')
                               (\<lambda>i j. if i \<in> set ks then t ! i else cell ?a' i j))\<rparr>"
    using Cons.IH [of ?a'] ks by simp
  moreover have "mk (nrows ?a') (ncols ?a') (\<lambda>i j. if i \<in> set ks then t ! i else cell ?a' i j)
                   = mk (nrows a) (ncols a) (\<lambda>i j. if i \<in> set (k # ks) then t ! i else cell a i j)"
    by (auto intro!: mk_cong)
  ultimately show ?case
    using set by simp
qed

lemma Vector_fromTuple_Nil: "Vector_fromTuple [] = Inr \<lparr>data = None\<rparr>"
  by (simp add: Vector_fromTuple_def Vector_init_def)

lemma Vector_fromTuple_column: "z \<noteq> [] \<Longrightarrow> Vector_fromTuple z = Inr \<lparr>data = Some (column z)\<rparr>"
proof -
  assume "z \<noteq> []"
  then have init: "Vector_init (int (length z)) = \<lparr>data = Some (np_zeros (length z) 1)\<rparr>"
    by (simp add: Vector_init_def)
  have "fromTuple_loop z [0..<length z] \<lparr>data = Some (np_zeros (length z) 1)\<rparr>
          = Inr \<lparr>data = Some (mk (nrows (np_zeros (length z) 1)) (ncols (np_zeros (length z) 1))
               (\<lambda>i j. if i \<in> set [0..<length z] then z ! i else cell (np_zeros (length z) 1) i j))\<rparr>"
    by (rule fromTuple_loop_fills) (simp_all add: np_zeros_def)
  moreover have "mk (nrows (np_zeros (length z) 1)) (ncols (np_zeros (length z) 1))
               (\<lambda>i j. if i \<in> set [0..<length z] then z ! i else cell (np_zeros (length z) 1) i j)
             = column z"
    unfolding column_def np_zeros_def by (auto intro!: mk_cong)
  ultimately show ?thesis
    by (simp add: Vector_fromTuple_def init)
qed

lemma arr_data [simp]: "arr \<lparr>data = Some a\<rparr> = a"
  by (simp add: arr_def)

lemma is_shape_data [simp]: "is_shape \<lparr>data = Some a\<rparr> r c \<longleftrightarrow> has_shape a r c"
  by (simp add: is_shape_def)

lemma is_shape_None [simp]: "\<not> is_shape \<lparr>data = None\<rparr> r c"
  by (simp add: is_shape_def)

lemma is_shapeD:
  assumes "is_shape M r c"
  shows "data M = Some (arr M)" and "nrows (arr M) = r" and "ncols (arr M) = c"
    and "well_shaped (arr M)"
  using assms by (auto simp add: is_shape_def arr_def has_shape_def split: option.splits)

lemma has_shape_ops [simp]:
  "has_shape (mat_mul a b) r c \<longleftrightarrow> nrows a = r \<and> ncols b = c"
  "has_shape (mat_add a b) r c \<longleftrightarrow> nrows a = r \<and> ncols a = c"
  "has_shape (mat_sub a b) r c \<longleftrightarrow> nrows a = r \<and> ncols a = c"
  "has_shape (np_T a) r c \<longleftrightarrow> ncols a = r \<and> nrows a = c"
  "has_shape (mat_inv a) r c \<longleftrightarrow> nrows a = r \<and> ncols a = c"
  "has_shape (column z) r c \<longleftrightarrow> length z = r \<and> c = 1"
  by (auto simp add: mat_mul_def mat_add_def mat_sub_def np_T_def mat_inv_def column_def)

lemma predict_P_shapes:
  assumes "is_shape (self_F s) n n" and "is_shape (self_P_post s) n n" and "is_shape (self_Q s) n n"
  shows "predict_P s = Inr \<lparr>data = Some (spec_P_pre s)\<rparr>"
  using is_shapeD [OF assms(1)] is_shapeD [OF assms(2)] is_shapeD [OF assms(3)]
  by (simp add: predict_P_def spec_P_pre_def Matrix_mul_fits Matrix_transpose_array Matrix_add_same)

lemma spec_P_pre_shape:
  assumes "is_shape (self_F s) n n"
  shows "has_shape (spec_P_pre s) n n"
  using is_shapeD [OF assms] by (simp add: spec_P_pre_def)

lemma gain_shapes:
  assumes "is_shape (self_H s) m n" and "is_shape (self_R s) m m"
    and "self_P_pre s = Some P" and "is_shape P n n"
  shows "gain s =
     (if singular (cov_of (arr (self_H s)) (arr P) (arr (self_R s))) then Inl (SystemExit 0)
      else Inr \<lparr>data = Some (gain_of (arr (self_H s)) (arr P) (arr (self_R s)))\<rparr>)"
  using is_shapeD [OF assms(1)] is_shapeD [OF assms(2)] is_shapeD [OF assms(4)] assms(3)
  by (simp add: gain_def gain_with_def gain_of_def cov_of_def Matrix_mul_fits Matrix_transpose_array
      Matrix_add_same Matrix_invert_regular Matrix_invert_singular)

lemma gain_with_fails:
  assumes "is_shape (self_H s) m n" and "is_shape (self_R s) m m"
    and "self_P_pre s = Some P" and "is_shape P n n"
    and "routine (cov_of (arr (self_H s)) (arr P) (arr (self_R s))) = Inl e"
  shows "gain_with routine s = Inl (SystemExit 0)"
  using is_shapeD [OF assms(1)] is_shapeD [OF assms(2)] is_shapeD [OF assms(4)] assms(3,5)
  by (simp add: gain_with_def cov_of_def Matrix_mul_fits Matrix_transpose_array
      Matrix_add_same Matrix_invert_with_fails)

lemma update_x_shapes:
  assumes "is_shape G n m" and "is_shape zv m 1" and "is_shape \<lparr>data = dh\<rparr> m 1"
    and "is_shape (self_x s) n 1"
  shows "update_x G zv dh s =
     Inr \<lparr>data = Some (mat_add (arr (self_x s)) (mat_mul (arr G) (mat_sub (arr zv) (the dh))))\<rparr>"
  using is_shapeD [OF assms(1)] is_shapeD [OF assms(2)] is_shapeD [OF assms(3)]
    is_shapeD [OF assms(4)]
  by (simp add: update_x_def Vector_fromData_def Matrix_sub_same [where a = "arr zv" and b = "the dh"]
      Matrix_mul_fits [where a = "arr G"] Matrix_add_same arr_def)

lemma update_P_shapes:
  assumes "is_shape G n m" and "is_shape (self_H s) m n" and "is_shape (self_I s) n n"
    and "self_P_pre s = Some P" and "is_shape P n n"
  shows "update_P G s =
     Inr \<lparr>data = Some (mat_mul (mat_sub (arr (self_I s)) (mat_mul (arr G) (arr (self_H s)))) (arr P))\<rparr>"
  using is_shapeD [OF assms(1)] is_shapeD [OF assms(2)] is_shapeD [OF assms(3)]
    is_shapeD [OF assms(5)] assms(4)
  by (simp add: update_P_def Matrix_mul_fits Matrix_sub_same)

section \<open>The inverse of a regular two by two array\<close>

text \<open>
  The adjugate formula that stands for the library's inversion gives a two-sided
  inverse; checked here on \<open>2 \<times> 2\<close> arrays.
\<close>

lemma mk_Suc_Suc:
  "mk (Suc (Suc 0)) (Suc (Suc 0)) g =
     \<lparr>nrows = Suc (Suc 0), ncols = Suc (Suc 0),
      cells = [[g 0 0, g 0 (Suc 0)], [g (Suc 0) 0, g (Suc 0) (Suc 0)]]\<rparr>"
  by (simp add: mk_def upt_rec)

lemma inverse_2_2:
  assumes "has_shape a 2 2" and "\<not> singular a"
  shows "mat_mul a (mat_inv a) = scaled_identity 2 1"
    and "mat_mul (mat_inv a) a = scaled_identity 2 1"
proof -
  from assms(1) have a: "a = mk (Suc (Suc 0)) (Suc (Suc 0)) (cell a)"
    using mk_cells [of a] by (simp add: has_shape_def numeral_2_eq_2)
  define p q r t where "p = cell a 0 0" and "q = cell a 0 (Suc 0)"
    and "r = cell a (Suc 0) 0" and "t = cell a (Suc 0) (Suc 0)"
  from a have a': "a = \<lparr>nrows = Suc (Suc 0), ncols = Suc (Suc 0), cells = [[p, q], [r, t]]\<rparr>"
    by (simp add: mk_Suc_Suc p_def q_def r_def t_def)
  from assms(2) have d: "p * t - q * r \<noteq> 0"
    by (simp add: a' singular_def del_at_def upt_rec)
  have inv: "mat_inv \<lparr>nrows = Suc (Suc 0), ncols = Suc (Suc 0), cells = [[p, q], [r, t]]\<rparr>
      = \<lparr>nrows = Suc (Suc 0), ncols = Suc (Suc 0),
      cells = [[t / (p * t - q * r), - q / (p * t - q * r)],
               [- r / (p * t - q * r), p / (p * t - q * r)]]\<rparr>"
    by (simp add: mat_inv_def mk_Suc_Suc minor_def del_at_def upt_rec cell_def)
  have "(p * t - q * r)\<^sup>2 \<noteq> 0"
    using d by simp
  then have d2: "p * (p * (t * t)) + q * (q * (r * r)) \<noteq> p * (q * (r * (t * 2)))"
    by (simp add: power2_eq_square algebra_simps)
  show "mat_mul a (mat_inv a) = scaled_identity 2 1"
    using d d2 by (simp add: inv a' mat_mul_def scaled_identity_def mk_Suc_Suc cell_def upt_rec
        numeral_2_eq_2 field_simps)
  show "mat_mul (mat_inv a) a = scaled_identity 2 1"
    using d d2 by (simp add: inv a' mat_mul_def scaled_identity_def mk_Suc_Suc cell_def upt_rec
        numeral_2_eq_2 field_simps)
qed

section \<open>One step, stage by stage\<close>

lemma EKF_f_shapes:
  assumes "maps_shape (cb_f mdl) n 1 n 1" and "is_shape (self_x s) n 1"
  shows "EKF_f mdl (data (self_x s)) = Inr (Some (spec_x_pred mdl s))"
    and "has_shape (spec_x_pred mdl s) n 1"
proof -
  from assms(1) obtain g where g: "cb_f mdl = Some g"
    and sh: "\<And>a. has_shape a n 1 \<Longrightarrow> is_shape \<lparr>data = g (Some a)\<rparr> n 1"
    by (auto simp add: maps_shape_def split: option.splits)
  from assms(2) obtain a where a: "data (self_x s) = Some a" "has_shape a n 1"
    by (auto simp add: is_shape_def split: option.splits)
  from sh [OF a(2)] obtain b where b: "g (Some a) = Some b" "has_shape b n 1"
    by (auto simp add: is_shape_def split: option.splits)
  show "EKF_f mdl (data (self_x s)) = Inr (Some (spec_x_pred mdl s))"
    by (simp add: EKF_f_def spec_x_pred_def g a b)
  show "has_shape (spec_x_pred mdl s) n 1"
    using b(2) by (simp add: spec_x_pred_def g a b(1))
qed

lemma EKF_h_shapes:
  assumes "maps_shape (cb_h mdl) n 1 m 1" and "has_shape (spec_x_pred mdl s) n 1"
  shows "EKF_h mdl (Some (spec_x_pred mdl s)) = Inr (Some (spec_h_pred mdl s))"
    and "has_shape (spec_h_pred mdl s) m 1"
proof -
  from assms(1) obtain g where g: "cb_h mdl = Some g"
    and sh: "\<And>a. has_shape a n 1 \<Longrightarrow> is_shape \<lparr>data = g (Some a)\<rparr> m 1"
    by (auto simp add: maps_shape_def split: option.splits)
  from sh [OF assms(2)] obtain b where b: "g (Some (spec_x_pred mdl s)) = Some b" "has_shape b m 1"
    by (auto simp add: is_shape_def split: option.splits)
  show "EKF_h mdl (Some (spec_x_pred mdl s)) = Inr (Some (spec_h_pred mdl s))"
    by (simp add: EKF_h_def spec_h_pred_def g b)
  show "has_shape (spec_h_pred mdl s) m 1"
    using b(2) by (simp add: spec_h_pred_def g b(1))
qed

lemma has_shapeD: "has_shape a r c \<Longrightarrow> nrows a = r \<and> ncols a = c \<and> well_shaped a"
  by (simp add: has_shape_def)

lemma ncols_cov_of [simp]: "ncols (cov_of H P R) = nrows H"
  by (simp add: cov_of_def)

lemma nrows_cov_of [simp]: "nrows (cov_of H P R) = nrows H"
  by (simp add: cov_of_def)

lemma nrows_gain_of [simp]: "nrows (gain_of H P R) = nrows P"
  by (simp add: gain_of_def)

lemma ncols_gain_of [simp]: "ncols (gain_of H P R) = nrows H"
  by (simp add: gain_of_def)

lemma step_success:
  assumes "EKF_f mdl (data (self_x s0)) = Inr d1"
    and "s1 = s0\<lparr>self_x := Vector_fromData d1, calls := calls s0 @ [Called_f (data (self_x s0))]\<rparr>"
    and "predict_P s1 = Inr p"
    and "s3 = s1\<lparr>self_P_pre := Some p, self_P_post := Matrix_copy p\<rparr>"
    and "gain s3 = Inr G"
    and "Vector_fromTuple z = Inr zv"
    and "EKF_h mdl (data (self_x s3)) = Inr dh"
    and "s4 = s3\<lparr>calls := calls s3 @ [Called_h (data (self_x s3))]\<rparr>"
    and "update_x G zv dh s4 = Inr x'"
    and "s5 = s4\<lparr>self_x := x'\<rparr>"
    and "update_P G s5 = Inr p'"
    and "s6 = s5\<lparr>self_P_post := p'\<rparr>"
    and "Matrix_asarray (self_x s6) = Inr out"
  shows "step mdl s0 z = (Inr out, s6)"
  using assms by (simp add: step_def step_with_def gain_def Let_def)

lemma step_fails_in_gain:
  assumes "EKF_f mdl (data (self_x s0)) = Inr d1"
    and "s1 = s0\<lparr>self_x := Vector_fromData d1, calls := calls s0 @ [Called_f (data (self_x s0))]\<rparr>"
    and "predict_P s1 = Inr p"
    and "s3 = s1\<lparr>self_P_pre := Some p, self_P_post := Matrix_copy p\<rparr>"
    and "gain s3 = Inl e"
  shows "step mdl s0 z = (Inl e, s3)"
  using assms by (simp add: step_def step_with_def gain_def Let_def)

lemma step_fails_in_update_x:
  assumes "EKF_f mdl (data (self_x s0)) = Inr d1"
    and "s1 = s0\<lparr>self_x := Vector_fromData d1, calls := calls s0 @ [Called_f (data (self_x s0))]\<rparr>"
    and "predict_P s1 = Inr p"
    and "s3 = s1\<lparr>self_P_pre := Some p, self_P_post := Matrix_copy p\<rparr>"
    and "gain s3 = Inr G"
    and "Vector_fromTuple z = Inr zv"
    and "EKF_h mdl (data (self_x s3)) = Inr dh"
    and "s4 = s3\<lparr>calls := calls s3 @ [Called_h (data (self_x s3))]\<rparr>"
    and "update_x G zv dh s4 = Inl e"
  shows "step mdl s0 z = (Inl e, s4)"
  using assms by (simp add: step_def step_with_def gain_def Let_def)

lemma prediction_phase:
  assumes ok: "shapes_ok n m s" and cf: "maps_shape (cb_f mdl) n 1 n 1"
  defines "s1 \<equiv> s\<lparr>self_x := Vector_fromData (Some (spec_x_pred mdl s)),
                    calls := calls s @ [Called_f (data (self_x s))]\<rparr>"
  shows "EKF_f mdl (data (self_x s)) = Inr (Some (spec_x_pred mdl s))"
    and "predict_P s1 = Inr \<lparr>data = Some (spec_P_pre s)\<rparr>"
    and "s1\<lparr>self_P_pre := Some \<lparr>data = Some (spec_P_pre s)\<rparr>,
            self_P_post := Matrix_copy \<lparr>data = Some (spec_P_pre s)\<rparr>\<rparr> = predicted mdl s"
    and "gain (predicted mdl s) =
           (if singular (spec_S s) then Inl (SystemExit 0) else Inr \<lparr>data = Some (spec_G s)\<rparr>)"
    and "has_shape (spec_x_pred mdl s) n 1"
    and "has_shape (spec_P_pre s) n n"
    and "has_shape (spec_G s) n m"
proof -
  from ok have x: "is_shape (self_x s) n 1" and P: "is_shape (self_P_post s) n n"
    and F: "is_shape (self_F s) n n" and H: "is_shape (self_H s) m n"
    and Q: "is_shape (self_Q s) n n" and R: "is_shape (self_R s) m m"
    by (simp_all add: shapes_ok_def)
  show "EKF_f mdl (data (self_x s)) = Inr (Some (spec_x_pred mdl s))"
    and "has_shape (spec_x_pred mdl s) n 1"
    by (rule EKF_f_shapes [OF cf x])+
  show pp: "has_shape (spec_P_pre s) n n"
    by (rule spec_P_pre_shape [OF F])
  have "spec_P_pre s1 = spec_P_pre s"
    by (simp add: s1_def spec_P_pre_def)
  moreover have "predict_P s1 = Inr \<lparr>data = Some (spec_P_pre s1)\<rparr>"
    by (rule predict_P_shapes [where n = n]) (simp_all add: s1_def F P Q)
  ultimately show "predict_P s1 = Inr \<lparr>data = Some (spec_P_pre s)\<rparr>"
    by simp
  show "s1\<lparr>self_P_pre := Some \<lparr>data = Some (spec_P_pre s)\<rparr>,
            self_P_post := Matrix_copy \<lparr>data = Some (spec_P_pre s)\<rparr>\<rparr> = predicted mdl s"
    by (simp add: s1_def predicted_def Vector_fromData_def Matrix_copy_def)
  have "gain (predicted mdl s) =
     (if singular (cov_of (arr (self_H (predicted mdl s))) (arr \<lparr>data = Some (spec_P_pre s)\<rparr>)
                    (arr (self_R (predicted mdl s))))
      then Inl (SystemExit 0)
      else Inr \<lparr>data = Some (gain_of (arr (self_H (predicted mdl s))) (arr \<lparr>data = Some (spec_P_pre s)\<rparr>)
                    (arr (self_R (predicted mdl s))))\<rparr>)"
    by (rule gain_shapes [where n = n and m = m]) (simp_all add: predicted_def H R pp)
  then show "gain (predicted mdl s) =
           (if singular (spec_S s) then Inl (SystemExit 0) else Inr \<lparr>data = Some (spec_G s)\<rparr>)"
    by (simp add: predicted_def spec_S_def spec_G_def)
  show "has_shape (spec_G s) n m"
    using has_shapeD [OF pp] is_shapeD [OF H] by (simp add: spec_G_def gain_of_def)
qed

lemma bind_e_eq_Inr: "bind_e r k = Inr v \<longleftrightarrow> (\<exists>u. r = Inr u \<and> k u = Inr v)"
  by (cases r) simp_all

lemma np_elementwise_shape:
  assumes "np_elementwise opr a b = Inr c"
  shows "has_shape c (bc_len (nrows a) (nrows b)) (bc_len (ncols a) (ncols b))"
proof (cases "bc_ok (nrows a) (nrows b) \<and> bc_ok (ncols a) (ncols b)")
  case True
  with assms have "c = mk (bc_len (nrows a) (nrows b)) (bc_len (ncols a) (ncols b))
                 (\<lambda>i j. opr (cell a (bc_idx (nrows a) i) (bc_idx (ncols a) j))
                             (cell b (bc_idx (nrows b) i) (bc_idx (ncols b) j)))"
    by (simp add: np_elementwise_def)
  then show ?thesis
    by (simp only: has_shape_mk)
next
  case False
  with assms show ?thesis
    by (simp add: np_elementwise_def)
qed


lemma Matrix_sub_shape:
  assumes "Matrix_sub A B = Inr C" and "data A = Some a" and "data B = Some b"
  shows "is_shape C (bc_len (nrows a) (nrows b)) (bc_len (ncols a) (ncols b))"
proof -
  from assms obtain c where c: "np_sub a b = Inr c" and C: "C = \<lparr>data = Some c\<rparr>"
    by (auto simp add: Matrix_sub_def bind_e_eq_Inr)
  from c have "has_shape c (bc_len (nrows a) (nrows b)) (bc_len (ncols a) (ncols b))"
    unfolding np_sub_def by (rule np_elementwise_shape)
  then show ?thesis
    by (simp only: C is_shape_data)
qed

lemma Matrix_add_shape:
  assumes "Matrix_add A B = Inr C" and "data A = Some a" and "data B = Some b"
  shows "is_shape C (bc_len (nrows a) (nrows b)) (bc_len (ncols a) (ncols b))"
proof -
  from assms obtain c where c: "np_add a b = Inr c" and C: "C = \<lparr>data = Some c\<rparr>"
    by (auto simp add: Matrix_add_def bind_e_eq_Inr)
  from c have "has_shape c (bc_len (nrows a) (nrows b)) (bc_len (ncols a) (ncols b))"
    unfolding np_add_def by (rule np_elementwise_shape)
  then show ?thesis
    by (simp only: C is_shape_data)
qed

lemma Matrix_mul_shape:
  assumes "Matrix_mul A (Obj B) = Inr C" and "data A = Some a" and "data B = Some b"
  shows "ncols a = nrows b \<and> is_shape C (nrows a) (ncols b)"
proof (cases "ncols a = nrows b")
  case True
  with assms have "C = \<lparr>data = Some (mat_mul a b)\<rparr>"
    by (simp add: Matrix_mul_fits)
  with True show ?thesis by simp
next
  case False
  with assms show ?thesis by (simp add: Matrix_mul_misfit)
qed

lemma Matrix_sub_None_shape:
  assumes "Matrix_sub A B = Inr C" and "data A = None"
  shows "\<exists>b. data B = Some b \<and> no_cell b \<and> is_shape C (nrows b) (ncols b)"
  using assms
  by (auto simp add: Matrix_sub_def with_None_def bind_e_eq_Inr split: option.splits if_splits)

lemma bc_len_same [simp]: "bc_len k k = k"
  by (simp add: bc_len_def)

lemma is_shape_dims:
  "data M = Some a \<Longrightarrow> is_shape M r c \<Longrightarrow> nrows a = r \<and> ncols a = c"
  by (simp add: is_shape_def has_shape_def)

lemma update_x_result_shape:
  assumes "update_x G zv dh s = Inr x'" and "is_shape G n m" and "is_shape \<lparr>data = dh\<rparr> m 1"
    and "is_shape (self_x s) n 1" and "data zv = None \<or> ncols (arr zv) = 1"
  shows "is_shape x' n 1"
proof -
  from assms(1) obtain innov corr where
    i: "Matrix_sub zv (Vector_fromData dh) = Inr innov"
    and c: "Matrix_mul G (Obj innov) = Inr corr"
    and a: "Matrix_add (self_x s) corr = Inr x'"
    by (auto simp add: update_x_def bind_e_eq_Inr)
  from assms(3) obtain hb where hb: "data (Vector_fromData dh) = Some hb" and hbs: "has_shape hb m 1"
    by (auto simp add: Vector_fromData_def is_shape_def split: option.splits)
  from hbs have hcol: "ncols hb = 1"
    by (simp add: has_shape_def)
  have "\<exists>k. is_shape innov k 1"
  proof (cases "data zv")
    case None
    from Matrix_sub_None_shape [OF i None] hb hcol show ?thesis
      by auto
  next
    case (Some za)
    with assms(5) have "ncols za = 1" by (simp add: arr_def)
    with Matrix_sub_shape [OF i Some hb] hcol show ?thesis
      by auto
  qed
  then obtain k where icol: "is_shape innov k 1" ..
  then obtain ia where ia: "data innov = Some ia"
    by (auto simp add: is_shape_def split: option.splits)
  from assms(2) obtain g where g: "data G = Some g"
    by (auto simp add: is_shape_def split: option.splits)
  from Matrix_mul_shape [OF c g ia] have csh: "is_shape corr (nrows g) (ncols ia)"
    by simp
  from is_shape_dims [OF g assms(2)] have "nrows g = n" by simp
  moreover from is_shape_dims [OF ia icol] have "ncols ia = 1" by simp
  ultimately have corr: "is_shape corr n 1" using csh by simp
  then obtain cb where cb: "data corr = Some cb"
    by (auto simp add: is_shape_def split: option.splits)
  from assms(4) obtain xa where xa: "data (self_x s) = Some xa"
    by (auto simp add: is_shape_def split: option.splits)
  from Matrix_add_shape [OF a xa cb]
  have xsh: "is_shape x' (bc_len (nrows xa) (nrows cb)) (bc_len (ncols xa) (ncols cb))" .
  from is_shape_dims [OF xa assms(4)] have "nrows xa = n" "ncols xa = 1" by simp_all
  moreover from is_shape_dims [OF cb corr] have "nrows cb = n" "ncols cb = 1" by simp_all
  ultimately show ?thesis using xsh by simp
qed

lemma shapes_ok_predicted:
  assumes "shapes_ok n m s" and "maps_shape (cb_f mdl) n 1 n 1"
  shows "shapes_ok n m (predicted mdl s)"
  using assms prediction_phase(5,6) [OF assms]
  by (simp add: shapes_ok_def predicted_def)

lemma Vector_fromTuple_cases:
  obtains zv where "Vector_fromTuple z = Inr zv" and "data zv = None \<or> ncols (arr zv) = 1"
proof (cases "z = []")
  case True
  then have "Vector_fromTuple z = Inr \<lparr>data = None\<rparr>" by (simp add: Vector_fromTuple_Nil)
  then show ?thesis by (rule that) simp
next
  case False
  then have "Vector_fromTuple z = Inr \<lparr>data = Some (column z)\<rparr>" by (rule Vector_fromTuple_column)
  then show ?thesis by (rule that) simp
qed

lemma step_shapes:
  assumes ok: "shapes_ok n m s" and cb: "callbacks_ok n m mdl"
  shows "shapes_ok n m (snd (step mdl s z))
         \<and> (\<forall>out. fst (step mdl s z) = Inr out \<longrightarrow> length out = n)"
proof -
  from ok have H: "is_shape (self_H s) m n" and I: "is_shape (self_I s) n n"
    by (simp_all add: shapes_ok_def)
  from cb have cf: "maps_shape (cb_f mdl) n 1 n 1" and ch: "maps_shape (cb_h mdl) n 1 m 1"
    by (simp_all add: callbacks_ok_def)
  note ph = prediction_phase [OF ok cf]
  note h1 = EKF_h_shapes [OF ch ph(5)]
  note okp = shapes_ok_predicted [OF ok cf]
  show ?thesis
  proof (cases "singular (spec_S s)")
    case True
    then have "gain (predicted mdl s) = Inl (SystemExit 0)"
      by (simp add: ph(4))
    then have "step mdl s z = (Inl (SystemExit 0), predicted mdl s)"
      by (rule step_fails_in_gain [OF ph(1) refl ph(2) ph(3) [symmetric]])
    with okp show ?thesis by simp
  next
    case False
    then have g: "gain (predicted mdl s) = Inr \<lparr>data = Some (spec_G s)\<rparr>"
      by (simp add: ph(4))
    obtain zv where zv: "Vector_fromTuple z = Inr zv" and zc: "data zv = None \<or> ncols (arr zv) = 1"
      by (rule Vector_fromTuple_cases)
    have eh: "EKF_h mdl (data (self_x (predicted mdl s))) = Inr (Some (spec_h_pred mdl s))"
      using h1(1) by (simp add: predicted_def)
    define s4 where "s4 = (predicted mdl s)\<lparr>calls := calls (predicted mdl s)
                            @ [Called_h (data (self_x (predicted mdl s)))]\<rparr>"
    have ok4: "shapes_ok n m s4"
      using okp by (simp add: s4_def shapes_ok_def)
    show ?thesis
    proof (cases "update_x \<lparr>data = Some (spec_G s)\<rparr> zv (Some (spec_h_pred mdl s)) s4")
      case (Inl e)
      then have "step mdl s z = (Inl e, s4)"
        by (rule step_fails_in_update_x [OF ph(1) refl ph(2) ph(3) [symmetric] g zv eh s4_def])
      with ok4 show ?thesis by simp
    next
      case (Inr x')
      have x': "is_shape x' n 1"
        by (rule update_x_result_shape [OF Inr, where m = m])
          (use ph(7) h1(2) ok4 zc in \<open>simp_all add: shapes_ok_def\<close>)
      define s5 where "s5 = s4\<lparr>self_x := x'\<rparr>"
      have "update_P \<lparr>data = Some (spec_G s)\<rparr> s5
          = Inr \<lparr>data = Some (mat_mul (mat_sub (arr (self_I s5))
                 (mat_mul (arr \<lparr>data = Some (spec_G s)\<rparr>) (arr (self_H s5))))
                 (arr \<lparr>data = Some (spec_P_pre s)\<rparr>))\<rparr>"
        by (rule update_P_shapes [where n = n and m = m])
          (use ph(6,7) H I in \<open>simp_all add: s5_def s4_def predicted_def\<close>)
      then have up: "update_P \<lparr>data = Some (spec_G s)\<rparr> s5 = Inr \<lparr>data = Some (spec_P_post s)\<rparr>"
        by (simp add: spec_P_post_def s5_def s4_def predicted_def)
      define s6 where "s6 = s5\<lparr>self_P_post := \<lparr>data = Some (spec_P_post s)\<rparr>\<rparr>"
      have out: "Matrix_asarray (self_x s6) = Inr (flat (arr x'))"
        using is_shapeD [OF x'] by (simp add: s6_def s5_def Matrix_asarray_flat)
      have "step mdl s z = (Inr (flat (arr x')), s6)"
        by (rule step_success [OF ph(1) refl ph(2) ph(3) [symmetric] g zv eh s4_def Inr s5_def up s6_def out])
      moreover have "shapes_ok n m s6"
        using ok4 x' I has_shapeD [OF ph(6)]
        by (simp add: s6_def s5_def shapes_ok_def spec_P_post_def is_shapeD)
      ultimately show ?thesis
        using is_shapeD [OF x'] by simp
    qed
  qed
qed

lemma step_is_spec_step:
  assumes ok: "shapes_ok n m s" and cb: "callbacks_ok n m mdl" and m: "1 \<le> m"
    and z: "length z = m" and reg: "\<not> singular (spec_S s)"
  shows "step mdl s z = (Inr (fst (spec_step mdl s z)), snd (spec_step mdl s z))"
proof -
  from ok have H: "is_shape (self_H s) m n" and I: "is_shape (self_I s) n n"
    by (simp_all add: shapes_ok_def)
  from cb have cf: "maps_shape (cb_f mdl) n 1 n 1" and ch: "maps_shape (cb_h mdl) n 1 m 1"
    by (simp_all add: callbacks_ok_def)
  note ph = prediction_phase [OF ok cf]
  note h1 = EKF_h_shapes [OF ch ph(5)]
  from z m have zv: "Vector_fromTuple z = Inr \<lparr>data = Some (column z)\<rparr>"
    by (intro Vector_fromTuple_column) auto
  define s4 where "s4 = (predicted mdl s)\<lparr>calls := calls (predicted mdl s)
                            @ [Called_h (data (self_x (predicted mdl s)))]\<rparr>"
  have ux: "update_x \<lparr>data = Some (spec_G s)\<rparr> \<lparr>data = Some (column z)\<rparr>
              (Some (spec_h_pred mdl s)) s4 = Inr \<lparr>data = Some (spec_x_upd mdl s z)\<rparr>"
  proof -
    have "update_x \<lparr>data = Some (spec_G s)\<rparr> \<lparr>data = Some (column z)\<rparr> (Some (spec_h_pred mdl s)) s4
        = Inr \<lparr>data = Some (mat_add (arr (self_x s4))
               (mat_mul (arr \<lparr>data = Some (spec_G s)\<rparr>)
                  (mat_sub (arr \<lparr>data = Some (column z)\<rparr>) (the (Some (spec_h_pred mdl s))))))\<rparr>"
      by (rule update_x_shapes [where n = n and m = m])
        (use ph(5,7) h1(2) z in \<open>simp_all add: s4_def predicted_def\<close>)
    then show ?thesis
      by (simp add: spec_x_upd_def s4_def predicted_def)
  qed
  define s5 where "s5 = s4\<lparr>self_x := \<lparr>data = Some (spec_x_upd mdl s z)\<rparr>\<rparr>"
  have up: "update_P \<lparr>data = Some (spec_G s)\<rparr> s5 = Inr \<lparr>data = Some (spec_P_post s)\<rparr>"
  proof -
    have "update_P \<lparr>data = Some (spec_G s)\<rparr> s5
        = Inr \<lparr>data = Some (mat_mul (mat_sub (arr (self_I s5))
               (mat_mul (arr \<lparr>data = Some (spec_G s)\<rparr>) (arr (self_H s5))))
               (arr \<lparr>data = Some (spec_P_pre s)\<rparr>))\<rparr>"
      by (rule update_P_shapes [where n = n and m = m])
        (use ph(6,7) H I in \<open>simp_all add: s5_def s4_def predicted_def\<close>)
    then show ?thesis
      by (simp add: spec_P_post_def s5_def s4_def predicted_def)
  qed
  have out: "Matrix_asarray (self_x (s5\<lparr>self_P_post := \<lparr>data = Some (spec_P_post s)\<rparr>\<rparr>))
               = Inr (flat (spec_x_upd mdl s z))"
    using has_shapeD [OF ph(5)] by (simp add: s5_def Matrix_asarray_def flat_def spec_x_upd_def)
  have "step mdl s z = (Inr (flat (spec_x_upd mdl s z)),
                        s5\<lparr>self_P_post := \<lparr>data = Some (spec_P_post s)\<rparr>\<rparr>)"
  proof (rule step_success [OF ph(1) refl ph(2) ph(3) [symmetric] _ zv _ s4_def ux s5_def up refl out])
    show "gain (predicted mdl s) = Inr \<lparr>data = Some (spec_G s)\<rparr>"
      using reg by (simp add: ph(4))
    show "EKF_h mdl (data (self_x (predicted mdl s))) = Inr (Some (spec_h_pred mdl s))"
      using h1(1) by (simp add: predicted_def)
  qed
  moreover have "s5\<lparr>self_P_post := \<lparr>data = Some (spec_P_post s)\<rparr>\<rparr> = snd (spec_step mdl s z)"
    by (simp add: s5_def s4_def predicted_def spec_step_def)
  ultimately show ?thesis
    by (simp add: spec_step_def)
qed

section \<open>The step on well-shaped filters\<close>


section \<open>Construction, invariants and failures\<close>

lemma mk_1_1: "mk 1 1 g = scalar (g 0 0)"
  by (simp add: mk_def scalar_def)

lemma mk_Suc_0: "mk (Suc 0) (Suc 0) g = scalar (g 0 0)"
  by (simp add: mk_def scalar_def)

lemma Vector_init_pos: "1 \<le> n \<Longrightarrow> Vector_init n = \<lparr>data = Some (zero_vector (nat n))\<rparr>"
  by (simp add: Vector_init_def np_zeros_def zero_vector_def)

lemma eye_times:
  "Matrix_mul \<lparr>data = Some (scaled_identity r 1)\<rparr> (Num k)
     = Inr \<lparr>data = Some (scaled_identity r k)\<rparr>"
  unfolding Matrix_mul_def np_scale_def scaled_identity_def
  by (auto intro!: mk_cong)

lemma scalar_times: "Matrix_mul \<lparr>data = Some (scalar 1)\<rparr> (Num k) = Inr \<lparr>data = Some (scalar k)\<rparr>"
  by (simp add: Matrix_mul_def np_scale_def scalar_def mk_def cell_def)

lemma eye_plain: "0 \<le> n \<Longrightarrow> Matrix_eye n None = Inr \<lparr>data = Some (scaled_identity (nat n) 1)\<rparr>"
  by (simp add: Matrix_eye_def np_eye_def scaled_identity_def)


lemma scalar_simps:
  "zero_vector (Suc 0) = scalar 0" "scaled_identity (Suc 0) k = scalar k"
  by (simp_all add: zero_vector_def scaled_identity_def mk_Suc_0)

lemma init_scalar_model:
  "EKF_init scalar_model 1 1 pval qval rval = Inr (scalar_filter 0 pval qval rval 1)"
  by (simp add: EKF_init_def Let_def Vector_init_pos eye_times eye_plain EKF_getF_def EKF_getH_def
      Matrix_fromData_def scalar_model_def scalar_filter_def scalar_simps mk_1_1 mk_Suc_0 scalar_times)

lemma init_blind_model:
  "EKF_init blind_model 1 1 pval qval rval = Inr (scalar_filter 0 pval qval rval 0)"
  by (simp add: EKF_init_def Let_def Vector_init_pos eye_times eye_plain EKF_getF_def EKF_getH_def
      Matrix_fromData_def blind_model_def scalar_filter_def scalar_simps mk_1_1 mk_Suc_0 scalar_times)




lemma EKF_init_value:
  assumes "1 \<le> n" and "0 \<le> m" and "cb_getF mdl = Some gF" and "cb_getH mdl = Some gH"
  shows "EKF_init mdl n m pval qval rval =
     Inr \<lparr>self_P_pre = None,
          self_x = \<lparr>data = Some (zero_vector (nat n))\<rparr>,
          self_P_post = \<lparr>data = Some (scaled_identity (nat n) pval)\<rparr>,
          self_F = \<lparr>data = gF \<lparr>data = Some (zero_vector (nat n))\<rparr>\<rparr>,
          self_H = \<lparr>data = gH \<lparr>data = Some (zero_vector (nat n))\<rparr>\<rparr>,
          self_Q = \<lparr>data = Some (scaled_identity (nat n) qval)\<rparr>,
          self_R = \<lparr>data = Some (scaled_identity (nat m) rval)\<rparr>,
          self_I = \<lparr>data = Some (scaled_identity (nat n) 1)\<rparr>,
          calls = [Called_getF \<lparr>data = Some (zero_vector (nat n))\<rparr>,
                   Called_getH \<lparr>data = Some (zero_vector (nat n))\<rparr>]\<rparr>"
  using assms
  by (simp add: EKF_init_def Let_def Vector_init_pos eye_times eye_plain EKF_getF_def EKF_getH_def
      Matrix_fromData_def)

text \<open>
  C5: with \<open>n \<ge> 1\<close>, \<open>m \<ge> 0\<close> and \<^verbatim>\<open>getF\<close>, \<^verbatim>\<open>getH\<close> supplied, the constructor returns a
  filter whose state is the zero vector of length \<open>n\<close>, whose \<open>P_post\<close>, \<open>Q\<close>, \<open>R\<close> and
  \<open>I\<close> are \<open>pval\<close>, \<open>qval\<close>, \<open>rval\<close> and 1 times the identity of size \<open>n\<close>, \<open>n\<close>, \<open>m\<close> and
  \<open>n\<close>, and whose \<open>F\<close> and \<open>H\<close> are what \<^verbatim>\<open>getF\<close> and \<^verbatim>\<open>getH\<close> return on the zero state;
  it has called \<^verbatim>\<open>getF\<close> once and then \<^verbatim>\<open>getH\<close> once, both on the zero state, and nothing
  else.
\<close>

theorem init_effects:
  assumes "1 \<le> n" and "0 \<le> m" and "cb_getF mdl = Some gF" and "cb_getH mdl = Some gH"
  shows "EKF_init mdl n m pval qval rval =
     Inr \<lparr>self_P_pre = None,
          self_x = \<lparr>data = Some (zero_vector (nat n))\<rparr>,
          self_P_post = \<lparr>data = Some (scaled_identity (nat n) pval)\<rparr>,
          self_F = \<lparr>data = gF \<lparr>data = Some (zero_vector (nat n))\<rparr>\<rparr>,
          self_H = \<lparr>data = gH \<lparr>data = Some (zero_vector (nat n))\<rparr>\<rparr>,
          self_Q = \<lparr>data = Some (scaled_identity (nat n) qval)\<rparr>,
          self_R = \<lparr>data = Some (scaled_identity (nat m) rval)\<rparr>,
          self_I = \<lparr>data = Some (scaled_identity (nat n) 1)\<rparr>,
          calls = [Called_getF \<lparr>data = Some (zero_vector (nat n))\<rparr>,
                   Called_getH \<lparr>data = Some (zero_vector (nat n))\<rparr>]\<rparr>"
  using assms by (rule EKF_init_value)

lemma init_shapes:
  assumes n: "1 \<le> n" and m: "0 \<le> m" and cb: "callbacks_ok (nat n) (nat m) mdl"
    and init: "EKF_init mdl n m pval qval rval = Inr s0"
  shows "shapes_ok (nat n) (nat m) s0"
proof -
  from cb obtain gF gH where gF: "cb_getF mdl = Some gF" and gH: "cb_getH mdl = Some gH"
    and shF: "\<And>v. is_shape v (nat n) 1 \<Longrightarrow> is_shape \<lparr>data = gF v\<rparr> (nat n) (nat n)"
    and shH: "\<And>v. is_shape v (nat n) 1 \<Longrightarrow> is_shape \<lparr>data = gH v\<rparr> (nat m) (nat n)"
    by (auto simp add: callbacks_ok_def gives_shape_def split: option.splits)
  have x0: "is_shape \<lparr>data = Some (zero_vector (nat n))\<rparr> (nat n) 1"
    by (simp add: zero_vector_def)
  from init show ?thesis
    unfolding EKF_init_value [OF n m gF gH]
    using shF [OF x0] shH [OF x0] x0
    by (auto simp add: shapes_ok_def scaled_identity_def)
qed

lemma run_shapes:
  "shapes_ok n m s \<Longrightarrow> callbacks_ok n m mdl \<Longrightarrow> shapes_ok n m (run mdl s zs)"
proof (induction zs arbitrary: s)
  case Nil
  then show ?case by simp
next
  case (Cons z zs)
  from step_shapes [OF Cons.prems] have "shapes_ok n m (snd (step mdl s z))" by simp
  then show ?case using Cons.IH Cons.prems(2) by simp
qed

text \<open>
  C7: a filter constructed with \<open>n \<ge> 1\<close>, \<open>m \<ge> 1\<close> and well-shaped model functions keeps
  its shapes through every call of \<^verbatim>\<open>step\<close>, failed or not; so after each successful call
  the returned sequence has length \<open>n\<close>, the state is \<open>n \<times> 1\<close> and \<open>P_post\<close> is \<open>n \<times> n\<close>.
\<close>

theorem shape_invariant:
  assumes "1 \<le> n" and "1 \<le> m" and "callbacks_ok (nat n) (nat m) mdl"
    and "EKF_init mdl n m pval qval rval = Inr s0"
    and "step mdl (run mdl s0 zs) z = (Inr out, s')"
  shows "length out = nat n \<and> is_shape (self_x s') (nat n) 1
         \<and> is_shape (self_P_post s') (nat n) (nat n)"
proof -
  from assms(2) have "0 \<le> m" by simp
  from init_shapes [OF assms(1) this assms(3,4)]
  have "shapes_ok (nat n) (nat m) (run mdl s0 zs)"
    using assms(3) by (rule run_shapes)
  from step_shapes [OF this assms(3), of z] assms(5) show ?thesis
    by (simp add: shapes_ok_def)
qed

text \<open>
  C6: a successful \<^verbatim>\<open>step\<close> leaves \<open>F\<close>, \<open>H\<close>, \<open>Q\<close>, \<open>R\<close> and \<open>I\<close> as they were, and calls
  neither \<^verbatim>\<open>getF\<close> nor \<^verbatim>\<open>getH\<close>.
\<close>

theorem step_keeps_model_matrices:
  assumes "step mdl s z = (Inr out, s')"
  shows "self_F s' = self_F s \<and> self_H s' = self_H s \<and> self_Q s' = self_Q s
         \<and> self_R s' = self_R s \<and> self_I s' = self_I s
         \<and> filter jacobian_call (calls s') = filter jacobian_call (calls s)"
  using assms
  by (auto simp add: step_def step_with_def Let_def split: sum.splits)

lemma missing_getF_fails_at_construction:
  "0 \<le> n \<Longrightarrow> cb_getF mdl = None \<Longrightarrow> EKF_init mdl n m pval qval rval = Inl NotImplementedError"
  by (simp add: EKF_init_def Let_def eye_plain eye_times EKF_getF_def)

lemma missing_getH_fails_at_construction:
  "0 \<le> n \<Longrightarrow> cb_getH mdl = None \<Longrightarrow> EKF_init mdl n m pval qval rval = Inl NotImplementedError"
  by (simp add: EKF_init_def Let_def eye_plain eye_times EKF_getF_def EKF_getH_def split: option.splits)

lemma init_ignores_f_and_h:
  "EKF_init (mdl\<lparr>cb_f := None, cb_h := None\<rparr>) n m pval qval rval = EKF_init mdl n m pval qval rval"
  by (simp add: EKF_init_def EKF_getF_def EKF_getH_def)

lemma missing_f_fails_at_step: "cb_f mdl = None \<Longrightarrow> step mdl s z = (Inl NotImplementedError, s)"
  by (simp add: step_def step_with_def EKF_f_def)

text \<open>
  C4 says that a filter with a model function missing cannot be constructed. A subclass
  that supplies everything but \<open>f\<close> is constructed, and \<^verbatim>\<open>NotImplementedError\<close> is raised
  by its first \<^verbatim>\<open>step\<close>.
\<close>

theorem missing_f_surfaces_at_first_step:
  "EKF_init no_f_model 1 1 1 0 1 = Inr (scalar_filter 0 1 0 1 1)
   \<and> step no_f_model (scalar_filter 0 1 0 1 1) [5]
       = (Inl NotImplementedError, scalar_filter 0 1 0 1 1)"
  by (simp add: EKF_init_def Let_def Vector_init_pos eye_times eye_plain EKF_getF_def EKF_getH_def
      Matrix_fromData_def no_f_model_def scalar_filter_def scalar_simps mk_1_1 mk_Suc_0 scalar_times
      step_def step_with_def EKF_f_def)

lemma step_with_fails_in_gain:
  assumes "EKF_f mdl (data (self_x s0)) = Inr d1"
    and "s1 = s0\<lparr>self_x := Vector_fromData d1, calls := calls s0 @ [Called_f (data (self_x s0))]\<rparr>"
    and "predict_P s1 = Inr p"
    and "s3 = s1\<lparr>self_P_pre := Some p, self_P_post := Matrix_copy p\<rparr>"
    and "gain_with routine s3 = Inl e"
  shows "step_with routine mdl s0 z = (Inl e, s3)"
  using assms by (simp add: step_with_def Let_def)

text \<open>
  C2, amended: when the library's inversion raises on the innovation covariance
  \<open>H P_pre H\<^sup>T + R\<close>, whatever the routine and whatever the exception, \<^verbatim>\<open>step\<close> raises
  \<^verbatim>\<open>SystemExit\<close> with status 0, and the filter is left with the prediction applied: the
  state is \<open>f x\<close>, and \<open>P_pre\<close> and \<open>P_post\<close> are both \<open>F P_post F\<^sup>T + Q\<close>.
\<close>

theorem inversion_failure_exits:
  assumes ok: "shapes_ok n m s" and cb: "callbacks_ok n m mdl"
    and fail: "routine (spec_S s) = Inl e"
  shows "step_with routine mdl s z = (Inl (SystemExit 0), predicted mdl s)"
proof -
  from ok have H: "is_shape (self_H s) m n" and R: "is_shape (self_R s) m m"
    by (simp_all add: shapes_ok_def)
  from cb have cf: "maps_shape (cb_f mdl) n 1 n 1"
    by (simp add: callbacks_ok_def)
  note ph = prediction_phase [OF ok cf]
  have "gain_with routine (predicted mdl s) = Inl (SystemExit 0)"
    by (rule gain_with_fails [where n = n and m = m and P = "\<lparr>data = Some (spec_P_pre s)\<rparr>" and e = e])
      (use H R ph(6) fail in \<open>simp_all add: predicted_def spec_S_def\<close>)
  then show ?thesis
    by (rule step_with_fails_in_gain [OF ph(1) refl ph(2) ph(3) [symmetric]])
qed









section \<open>The identity constructor\<close>

text \<open>
  C9, as stated, fails where the second argument is given as 0: \<^verbatim>\<open>eye(2, 0)\<close> is the
  \<open>2 \<times> 2\<close> identity, not a \<open>2 \<times> 0\<close> array.
\<close>

theorem eye_explicit_zero_counterexample:
  "Matrix_eye 2 (Some 0) = Inr \<lparr>data = Some \<lparr>nrows = 2, ncols = 2, cells = [[1, 0], [0, 1]]\<rparr>\<rparr>"
  by code_simp

text \<open>
  C9, amended: for \<open>n \<ge> 0\<close> and an explicit \<open>m \<ge> 1\<close> the identity constructor returns an
  \<open>n \<times> m\<close> array with 1 on the main diagonal and 0 elsewhere; a second argument that is
  omitted or 0 is replaced by \<open>n\<close>.
\<close>

theorem eye_shape_and_cells:
  assumes "0 \<le> n" and "1 \<le> m"
  shows "(\<exists>a. Matrix_eye n (Some m) = Inr \<lparr>data = Some a\<rparr>
              \<and> has_shape a (nat n) (nat m)
              \<and> (\<forall>i<nat n. \<forall>j<nat m. cell a i j = (if i = j then 1 else 0)))
         \<and> Matrix_eye n None = Matrix_eye n (Some n)
         \<and> Matrix_eye n (Some 0) = Matrix_eye n (Some n)"
  using assms by (auto simp add: Matrix_eye_def np_eye_def bind_e_def)

theorem eye_shape_and_cells_witness:
  "(0::int) \<le> 2 \<and> (1::int) \<le> 3
   \<and> (\<exists>a. Matrix_eye 2 (Some 3) = Inr \<lparr>data = Some a\<rparr>
              \<and> has_shape a (nat 2) (nat 3)
              \<and> (\<forall>i<nat 2. \<forall>j<nat 3. cell a i j = (if i = j then 1 else 0)))
   \<and> Matrix_eye 2 None = Matrix_eye 2 (Some 2)
   \<and> Matrix_eye 2 (Some 0) = Matrix_eye 2 (Some 2)"
  using eye_shape_and_cells [of 2 3] by simp

section \<open>Element access\<close>

text \<open>
  C10, as stated, fails at a negative index: on a \<open>2 \<times> 2\<close> matrix the key \<open>(-1, -1)\<close>
  reads the last cell.
\<close>

theorem getitem_negative_counterexample:
  "Matrix_getitem \<lparr>data = Some \<lparr>nrows = 2, ncols = 2, cells = [[1, 2], [3, 4]]\<rparr>\<rparr>
     (Idx2 (- 1) (- 1)) = Inr (Scalar 4)"
  by (simp add: Matrix_getitem_def norm_index_def cell_def)

lemma norm_index_mod:
  assumes "- int len \<le> i" and "i < int len"
  shows "norm_index len i = Some (nat (i mod int len))"
proof (cases "0 \<le> i")
  case True
  with assms show ?thesis
    by (simp add: norm_index_def)
next
  case False
  with assms have "0 \<le> i + int len" and "i + int len < int len"
    by simp_all
  then have "(i + int len) mod int len = i + int len"
    by (rule mod_pos_pos_trivial)
  then have "i mod int len = i + int len"
    by simp
  with False assms show ?thesis
    by (simp add: norm_index_def)
qed

lemma norm_index_outside:
  "\<not> (- int len \<le> i \<and> i < int len) \<Longrightarrow> norm_index len i = None"
  by (auto simp add: norm_index_def)

text \<open>
  C10, amended: on a matrix that holds an array, getting or setting with a row index
  outside \<open>[-rows, rows)\<close> or a column index outside \<open>[-cols, cols)\<close> fails with
  \<^verbatim>\<open>IndexError\<close>; with every index inside its range the access succeeds, on the row or
  cell whose position is the index modulo the length of its axis, so that a negative
  index counts from the end: a row key reads the row or fills it with the value, a pair
  reads or replaces one cell, and setting changes nothing else. On a matrix whose data
  is \<^verbatim>\<open>None\<close> every access raises \<^verbatim>\<open>TypeError\<close>.
\<close>

theorem index_range:
  "(data self = None \<longrightarrow>
      Matrix_getitem self k = Inl TypeError \<and> Matrix_setitem self k v = Inl TypeError)
   \<and> (data self = Some a \<longrightarrow>
         (\<not> (- int (nrows a) \<le> i \<and> i < int (nrows a)) \<longrightarrow>
            Matrix_getitem self (Idx i) = Inl IndexError
          \<and> Matrix_getitem self (Idx2 i j) = Inl IndexError
          \<and> Matrix_setitem self (Idx i) v = Inl IndexError
          \<and> Matrix_setitem self (Idx2 i j) v = Inl IndexError)
       \<and> (\<not> (- int (ncols a) \<le> j \<and> j < int (ncols a)) \<longrightarrow>
            Matrix_getitem self (Idx2 i j) = Inl IndexError
          \<and> Matrix_setitem self (Idx2 i j) v = Inl IndexError)
       \<and> (- int (nrows a) \<le> i \<and> i < int (nrows a) \<longrightarrow>
            Matrix_getitem self (Idx i)
              = Inr (RowOf (map (\<lambda>q. cell a (nat (i mod int (nrows a))) q) [0..<ncols a]))
          \<and> (\<exists>b. Matrix_setitem self (Idx i) v = Inr \<lparr>data = Some b\<rparr>
                 \<and> has_shape b (nrows a) (ncols a)
                 \<and> (\<forall>p<nrows a. \<forall>q<ncols a.
                       cell b p q = (if p = nat (i mod int (nrows a)) then v else cell a p q))))
       \<and> (- int (nrows a) \<le> i \<and> i < int (nrows a)
            \<and> - int (ncols a) \<le> j \<and> j < int (ncols a) \<longrightarrow>
            Matrix_getitem self (Idx2 i j)
              = Inr (Scalar (cell a (nat (i mod int (nrows a))) (nat (j mod int (ncols a)))))
          \<and> (\<exists>b. Matrix_setitem self (Idx2 i j) v = Inr \<lparr>data = Some b\<rparr>
                 \<and> has_shape b (nrows a) (ncols a)
                 \<and> (\<forall>p<nrows a. \<forall>q<ncols a.
                       cell b p q = (if p = nat (i mod int (nrows a)) \<and> q = nat (j mod int (ncols a))
                                     then v else cell a p q)))))"
proof (intro conjI impI)
  assume "data self = None"
  then show "Matrix_getitem self k = Inl TypeError" "Matrix_setitem self k v = Inl TypeError"
    by (simp_all add: Matrix_getitem_def Matrix_setitem_def)
next
  assume a: "data self = Some a" and out: "\<not> (- int (nrows a) \<le> i \<and> i < int (nrows a))"
  from norm_index_outside [OF out] a
  show "Matrix_getitem self (Idx i) = Inl IndexError"
    "Matrix_getitem self (Idx2 i j) = Inl IndexError"
    "Matrix_setitem self (Idx i) v = Inl IndexError"
    "Matrix_setitem self (Idx2 i j) v = Inl IndexError"
    by (simp_all add: Matrix_getitem_def Matrix_setitem_def)
next
  assume a: "data self = Some a" and out: "\<not> (- int (ncols a) \<le> j \<and> j < int (ncols a))"
  from norm_index_outside [OF out] a
  show "Matrix_getitem self (Idx2 i j) = Inl IndexError"
    "Matrix_setitem self (Idx2 i j) v = Inl IndexError"
    by (simp_all add: Matrix_getitem_def Matrix_setitem_def split: option.splits)
next
  assume a: "data self = Some a" and i: "- int (nrows a) \<le> i \<and> i < int (nrows a)"
  then have ni: "norm_index (nrows a) i = Some (nat (i mod int (nrows a)))"
    by (simp add: norm_index_mod)
  from a ni show "Matrix_getitem self (Idx i)
      = Inr (RowOf (map (\<lambda>q. cell a (nat (i mod int (nrows a))) q) [0..<ncols a]))"
    by (simp add: Matrix_getitem_def)
  from a ni show "\<exists>b. Matrix_setitem self (Idx i) v = Inr \<lparr>data = Some b\<rparr>
                 \<and> has_shape b (nrows a) (ncols a)
                 \<and> (\<forall>p<nrows a. \<forall>q<ncols a.
                       cell b p q = (if p = nat (i mod int (nrows a)) then v else cell a p q))"
    by (simp add: Matrix_setitem_def)
next
  assume a: "data self = Some a"
    and ij: "- int (nrows a) \<le> i \<and> i < int (nrows a) \<and> - int (ncols a) \<le> j \<and> j < int (ncols a)"
  then have ni: "norm_index (nrows a) i = Some (nat (i mod int (nrows a)))"
    and nj: "norm_index (ncols a) j = Some (nat (j mod int (ncols a)))"
    by (simp_all add: norm_index_mod)
  from a ni nj show "Matrix_getitem self (Idx2 i j)
      = Inr (Scalar (cell a (nat (i mod int (nrows a))) (nat (j mod int (ncols a)))))"
    by (simp add: Matrix_getitem_def)
  from a ni nj show "\<exists>b. Matrix_setitem self (Idx2 i j) v = Inr \<lparr>data = Some b\<rparr>
                 \<and> has_shape b (nrows a) (ncols a)
                 \<and> (\<forall>p<nrows a. \<forall>q<ncols a.
                       cell b p q = (if p = nat (i mod int (nrows a)) \<and> q = nat (j mod int (ncols a))
                                     then v else cell a p q))"
    by (simp add: Matrix_setitem_def)
qed

theorem index_range_witness:
  "data example_matrix = Some \<lparr>nrows = 2, ncols = 2, cells = [[1, 2], [3, 4]]\<rparr>
   \<and> Matrix_getitem example_matrix (Idx 2) = Inl IndexError
   \<and> Matrix_setitem example_matrix (Idx2 0 (- 3)) 7 = Inl IndexError
   \<and> Matrix_getitem example_matrix (Idx2 0 (- 1)) = Inr (Scalar 2)
   \<and> Matrix_getitem example_matrix (Idx (- 1)) = Inr (RowOf [3, 4])
   \<and> Matrix_setitem example_matrix (Idx2 (- 1) 0) 7
       = Inr \<lparr>data = Some \<lparr>nrows = 2, ncols = 2, cells = [[1, 2], [7, 4]]\<rparr>\<rparr>
   \<and> Matrix_getitem \<lparr>data = None\<rparr> (Idx2 0 0) = Inl TypeError"
proof -
  have d: "data example_matrix = Some \<lparr>nrows = 2, ncols = 2, cells = [[1, 2], [3, 4]]\<rparr>"
    by (simp add: example_matrix_def)
  have s: "Matrix_setitem example_matrix (Idx2 (- 1) 0) 7
       = Inr \<lparr>data = Some \<lparr>nrows = 2, ncols = 2, cells = [[1, 2], [7, 4]]\<rparr>\<rparr>"
    by code_simp
  from index_range [of example_matrix "Idx 2" 7 "\<lparr>nrows = 2, ncols = 2, cells = [[1, 2], [3, 4]]\<rparr>" 2 0]
    index_range [of example_matrix "Idx 2" 7 "\<lparr>nrows = 2, ncols = 2, cells = [[1, 2], [3, 4]]\<rparr>" 0 "- 3"]
    index_range [of example_matrix "Idx 2" 7 "\<lparr>nrows = 2, ncols = 2, cells = [[1, 2], [3, 4]]\<rparr>" 0 "- 1"]
    index_range [of example_matrix "Idx 2" 7 "\<lparr>nrows = 2, ncols = 2, cells = [[1, 2], [3, 4]]\<rparr>" "- 1" 0]
    index_range [of "\<lparr>data = None\<rparr>" "Idx2 0 0" 7 "\<lparr>nrows = 2, ncols = 2, cells = [[1, 2], [3, 4]]\<rparr>" 0 0]
    d s
  show ?thesis
    by (simp add: cell_def upt_rec numeral_2_eq_2)
qed

section \<open>The theorems on the example models\<close>

lemma has_shape_scalar [simp]: "has_shape (scalar v) r c \<longleftrightarrow> r = 1 \<and> c = 1"
  by (auto simp add: has_shape_def well_shaped_def scalar_def)

lemma callbacks_ok_scalar_model: "callbacks_ok 1 1 scalar_model"
  by (simp add: callbacks_ok_def maps_shape_def gives_shape_def scalar_model_def mk_1_1 mk_Suc_0)

lemma callbacks_ok_blind_model: "callbacks_ok 1 1 blind_model"
  by (simp add: callbacks_ok_def maps_shape_def gives_shape_def blind_model_def mk_1_1 mk_Suc_0)


lemma shapes_ok_scalar_filter: "shapes_ok 1 1 (scalar_filter xv pval qval rval hv)"
  by (simp add: shapes_ok_def scalar_filter_def)






lemma twice_model_jacobians:
  "cb_getF twice_model = Some (\<lambda>v. Some (mk 1 1 (\<lambda>i j. 1)))"
  "cb_getH twice_model = Some (\<lambda>v. Some (mk 2 1 (\<lambda>i j. 1)))"
  by (simp_all add: twice_model_def)

theorem init_effects_witness:
  "(1::int) \<le> 1 \<and> (0::int) \<le> 2
   \<and> cb_getF twice_model = Some (\<lambda>v. Some (mk 1 1 (\<lambda>i j. 1)))
   \<and> cb_getH twice_model = Some (\<lambda>v. Some (mk 2 1 (\<lambda>i j. 1)))
   \<and> EKF_init twice_model 1 2 1 1 1 =
       Inr \<lparr>self_P_pre = None,
            self_x = \<lparr>data = Some (zero_vector (nat 1))\<rparr>,
            self_P_post = \<lparr>data = Some (scaled_identity (nat 1) 1)\<rparr>,
            self_F = \<lparr>data = Some (mk 1 1 (\<lambda>i j. 1))\<rparr>,
            self_H = \<lparr>data = Some (mk 2 1 (\<lambda>i j. 1))\<rparr>,
            self_Q = \<lparr>data = Some (scaled_identity (nat 1) 1)\<rparr>,
            self_R = \<lparr>data = Some (scaled_identity (nat 2) 1)\<rparr>,
            self_I = \<lparr>data = Some (scaled_identity (nat 1) 1)\<rparr>,
            calls = [Called_getF \<lparr>data = Some (zero_vector (nat 1))\<rparr>,
                     Called_getH \<lparr>data = Some (zero_vector (nat 1))\<rparr>]\<rparr>"
  using init_effects [OF _ _ twice_model_jacobians, of 1 2 1 1 1] twice_model_jacobians
  by simp

lemma scalar_run: "fst (step scalar_model (run scalar_model (scalar_filter 0 1 0 1 1) [[1], [2, 3]]) [5]) = Inr [2]"
  by code_simp

theorem shape_invariant_witness:
  "(1::int) \<le> 1 \<and> callbacks_ok (nat 1) (nat 1) scalar_model
   \<and> EKF_init scalar_model 1 1 1 0 1 = Inr (scalar_filter 0 1 0 1 1)
   \<and> fst (step scalar_model (run scalar_model (scalar_filter 0 1 0 1 1) [[1], [2, 3]]) [5]) = Inr [2]
   \<and> length [2::real] = nat 1
   \<and> is_shape (self_x (snd (step scalar_model
        (run scalar_model (scalar_filter 0 1 0 1 1) [[1], [2, 3]]) [5]))) (nat 1) 1
   \<and> is_shape (self_P_post (snd (step scalar_model
        (run scalar_model (scalar_filter 0 1 0 1 1) [[1], [2, 3]]) [5]))) (nat 1) (nat 1)"
proof -
  have cb: "callbacks_ok (nat 1) (nat 1) scalar_model"
    using callbacks_ok_scalar_model by simp
  have st: "step scalar_model (run scalar_model (scalar_filter 0 1 0 1 1) [[1], [2, 3]]) [5]
      = (Inr [2], snd (step scalar_model (run scalar_model (scalar_filter 0 1 0 1 1) [[1], [2, 3]]) [5]))"
    using scalar_run by (simp add: prod_eq_iff)
  from shape_invariant [OF _ _ cb init_scalar_model st] cb scalar_run init_scalar_model
  show ?thesis by simp
qed

lemma scalar_first: "fst (step scalar_model (scalar_filter 0 1 0 1 1) [5]) = Inr [5 / 2]"
  by code_simp

theorem step_keeps_model_matrices_witness:
  "fst (step scalar_model (scalar_filter 0 1 0 1 1) [5]) = Inr [5 / 2]
   \<and> self_F (snd (step scalar_model (scalar_filter 0 1 0 1 1) [5])) = \<lparr>data = Some (scalar 1)\<rparr>
   \<and> self_H (snd (step scalar_model (scalar_filter 0 1 0 1 1) [5])) = \<lparr>data = Some (scalar 1)\<rparr>
   \<and> self_Q (snd (step scalar_model (scalar_filter 0 1 0 1 1) [5])) = \<lparr>data = Some (scalar 0)\<rparr>
   \<and> self_R (snd (step scalar_model (scalar_filter 0 1 0 1 1) [5])) = \<lparr>data = Some (scalar 1)\<rparr>
   \<and> self_I (snd (step scalar_model (scalar_filter 0 1 0 1 1) [5])) = \<lparr>data = Some (scalar 1)\<rparr>
   \<and> filter jacobian_call (calls (snd (step scalar_model (scalar_filter 0 1 0 1 1) [5])))
       = [Called_getF \<lparr>data = Some (scalar 0)\<rparr>, Called_getH \<lparr>data = Some (scalar 0)\<rparr>]"
proof -
  have st: "step scalar_model (scalar_filter 0 1 0 1 1) [5]
      = (Inr [5 / 2], snd (step scalar_model (scalar_filter 0 1 0 1 1) [5]))"
    using scalar_first by (simp add: prod_eq_iff)
  from step_keeps_model_matrices [OF st] scalar_first show ?thesis
    by (simp add: scalar_filter_def)
qed

lemma singular_blind: "singular (spec_S (scalar_filter 0 1 1 0 0))"
  by code_simp

text \<open>
  C2, as stated, fails: with \<open>H = 0\<close> and \<open>R = 0\<close> the innovation covariance is the zero
  array, on which the inversion raises in double precision as in exact arithmetic; the
  step raises \<^verbatim>\<open>SystemExit\<close>, not a recoverable error, and \<open>P_post\<close> has changed from 1
  to 2.
\<close>

theorem singular_step_counterexample:
  "EKF_init blind_model 1 1 1 1 0 = Inr (scalar_filter 0 1 1 0 0)
   \<and> singular (spec_S (scalar_filter 0 1 1 0 0))
   \<and> fst (step blind_model (scalar_filter 0 1 1 0 0) [5]) = Inl (SystemExit 0)
   \<and> self_P_post (scalar_filter 0 1 1 0 0) = \<lparr>data = Some (scalar 1)\<rparr>
   \<and> self_P_post (snd (step blind_model (scalar_filter 0 1 1 0 0) [5])) = \<lparr>data = Some (scalar 2)\<rparr>"
proof -
  have "fst (step blind_model (scalar_filter 0 1 1 0 0) [5]) = Inl (SystemExit 0)"
    by code_simp
  moreover have "self_P_post (snd (step blind_model (scalar_filter 0 1 1 0 0) [5]))
      = \<lparr>data = Some (scalar 2)\<rparr>"
    by code_simp
  ultimately show ?thesis
    using init_blind_model [of 1 1 0] singular_blind by (simp add: scalar_filter_def)
qed

lemma blind_inversion_fails: "linalg_inv (spec_S (scalar_filter 0 1 1 0 0)) = Inl LinAlgError"
  by code_simp

theorem inversion_failure_exits_witness:
  "shapes_ok 1 1 (scalar_filter 0 1 1 0 0) \<and> callbacks_ok 1 1 blind_model
   \<and> linalg_inv (spec_S (scalar_filter 0 1 1 0 0)) = Inl LinAlgError
   \<and> step_with linalg_inv blind_model (scalar_filter 0 1 1 0 0) [5]
       = (Inl (SystemExit 0), predicted blind_model (scalar_filter 0 1 1 0 0))"
  using inversion_failure_exits [where routine = linalg_inv and z = "[5]",
      OF shapes_ok_scalar_filter callbacks_ok_blind_model blind_inversion_fails]
    shapes_ok_scalar_filter [of 0 1 1 0 0] callbacks_ok_blind_model blind_inversion_fails
  by simp



section \<open>The stationary scalar system\<close>

lemma scalar_algebra [simp]:
  "mat_mul (scalar a) (scalar b) = scalar (a * b)"
  "mat_add (scalar a) (scalar b) = scalar (a + b)"
  "mat_sub (scalar a) (scalar b) = scalar (a - b)"
  "np_T (scalar a) = scalar a"
  "mat_inv (scalar a) = scalar (1 / a)"
  "column [c] = scalar c"
  "flat (scalar a) = [a]"
  by (simp_all add: mat_mul_def mat_add_def mat_sub_def np_T_def mat_inv_def column_def flat_def
      mk_1_1 mk_Suc_0 scalar_def cell_def minor_def del_at_def)

lemma singular_scalar [simp]: "singular (scalar a) \<longleftrightarrow> a = 0"
  by (simp add: singular_def scalar_def)

lemma cell_scalar [simp]: "cell (scalar a) 0 0 = a"
  by (simp add: scalar_def cell_def)


lemma scalar_state_shapes: "scalar_state r p s \<Longrightarrow> shapes_ok 1 1 s"
  by (simp add: scalar_state_def shapes_ok_def)

lemma scalar_state_spec:
  assumes "scalar_state r p s"
  shows "spec_P_pre s = scalar p" and "spec_S s = scalar (p + r)"
    and "spec_G s = scalar (p / (p + r))"
    and "spec_P_post s = scalar ((1 - p / (p + r)) * p)"
  using assms
  by (simp_all add: scalar_state_def spec_P_pre_def spec_S_def spec_G_def spec_P_post_def
      cov_of_def gain_of_def)

lemma scalar_state_step:
  assumes st: "scalar_state r p s" and reg: "p + r \<noteq> 0"
  shows "fst (step scalar_model s [c]) = Inr (fst (spec_step scalar_model s [c]))"
    and "scalar_state r ((1 - p / (p + r)) * p) (snd (step scalar_model s [c]))"
proof -
  have "\<not> singular (spec_S s)"
    using reg by (simp add: scalar_state_spec(2) [OF st])
  from step_is_spec_step [OF scalar_state_shapes [OF st] callbacks_ok_scalar_model _ _ this, of "[c]"]
  have eq: "step scalar_model s [c]
      = (Inr (fst (spec_step scalar_model s [c])), snd (spec_step scalar_model s [c]))"
    by simp
  then show "fst (step scalar_model s [c]) = Inr (fst (spec_step scalar_model s [c]))"
    by simp
  from st have x: "is_shape (self_x s) 1 1"
    by (simp add: scalar_state_def)
  have "spec_x_pred scalar_model s = arr (self_x s)"
    by (simp add: spec_x_pred_def scalar_model_def arr_def)
  then have "has_shape (spec_x_upd scalar_model s [c]) 1 1"
    using is_shapeD(2,3) [OF x] by (simp add: spec_x_upd_def)
  then show "scalar_state r ((1 - p / (p + r)) * p) (snd (step scalar_model s [c]))"
    using st by (simp add: eq spec_step_def scalar_state_def scalar_state_spec(4) [OF st])
qed

lemma steps_0 [simp]: "steps mdl z 0 s = s"
  by (simp add: steps_def)

lemma steps_Suc [simp]: "steps mdl z (Suc k) s = snd (step mdl (steps mdl z k s) z)"
  by (simp add: steps_def)

lemma scalar_recurrence:
  assumes "0 < p" and "0 < r"
  shows "(1 - (p * r / (r + real k * p)) / (p * r / (r + real k * p) + r)) * (p * r / (r + real k * p))
         = p * r / (r + real (Suc k) * p)"
proof -
  define d where "d = r + real k * p"
  have d: "0 < d" using assms by (simp add: d_def add_pos_nonneg)
  have pd: "0 < p + d" using assms d by simp
  have "p * r / d + r = r * (p + d) / d"
    using d by (simp add: field_simps)
  then have "(p * r / d) / (p * r / d + r) = (p * r / d) / (r * (p + d) / d)"
    by simp
  also have "\<dots> = (p * r) / (r * (p + d))"
    using d by simp
  also have "\<dots> = (r * p) / (r * (p + d))"
    by (simp add: mult.commute)
  also have "\<dots> = p / (p + d)"
    using assms by (simp only: mult_divide_mult_cancel_left_if) simp
  finally have "(p * r / d) / (p * r / d + r) = p / (p + d)" .
  then have "(1 - (p * r / d) / (p * r / d + r)) * (p * r / d) = (1 - p / (p + d)) * (p * r / d)"
    by simp
  also have "1 - p / (p + d) = d / (p + d)"
    using pd by (simp add: field_simps)
  also have "d / (p + d) * (p * r / d) = p * r / (p + d)"
    using d pd by simp
  also have "p + d = r + real (Suc k) * p"
    by (simp add: d_def algebra_simps)
  finally show ?thesis
    by (simp add: d_def)
qed

lemma scalar_limit:
  assumes "0 < p" and "0 < r"
  shows "(\<lambda>k. p * r / (r + real k * p)) \<longlonglongrightarrow> 0"
proof -
  have "filterlim (\<lambda>k. real k * p) at_top sequentially"
    using assms(1) filterlim_real_sequentially
    by (intro filterlim_tendsto_pos_mult_at_top [OF tendsto_const, rotated -1, of _ _ p]
        filterlim_at_top_mult_tendsto_pos) (auto intro: tendsto_const)
  then have "filterlim (\<lambda>k. r + real k * p) at_top sequentially"
    by (rule filterlim_tendsto_add_at_top [OF tendsto_const])
  then show ?thesis
    by (rule real_tendsto_divide_at_top [OF tendsto_const])
qed


lemma scalar_steps:
  assumes p: "0 < p" and r: "0 < r" and st: "scalar_state r p s"
  shows "scalar_state r (p * r / (r + real k * p)) (steps scalar_model [c] k s)"
proof (induction k)
  case 0
  from r st show ?case by simp
next
  case (Suc k)
  have "0 < p * r / (r + real k * p)"
    using p r by (simp add: add_pos_nonneg)
  then have "p * r / (r + real k * p) + r \<noteq> 0"
    using r by simp
  from scalar_state_step(2) [OF Suc.IH this, of c] show ?case
    by (simp only: steps_Suc scalar_recurrence [OF p r])
qed

lemma scalar_steps_succeed:
  assumes p: "0 < p" and r: "0 < r" and st: "scalar_state r p s"
  shows "\<exists>out. fst (step scalar_model (steps scalar_model [c] k s) [c]) = Inr out"
proof -
  have "0 < p * r / (r + real k * p)"
    using p r by (simp add: add_pos_nonneg)
  then have "p * r / (r + real k * p) + r \<noteq> 0"
    using r by simp
  from scalar_state_step(1) [OF scalar_steps [OF p r st] this] show ?thesis
    by blast
qed

lemma P_post_value_scalar_state: "scalar_state r p s \<Longrightarrow> P_post_value s = p"
  by (simp add: scalar_state_def P_post_value_def)

lemma scalar_state_filter: "scalar_state rval pval (scalar_filter xv pval 0 rval 1)"
  by (simp add: scalar_state_def scalar_filter_def)

lemma scalar_decreasing:
  assumes "0 < p" and "0 < r"
  shows "p * r / (r + real (Suc k) * p) \<le> p * r / (r + real k * p)"
proof -
  have "0 < r + real k * p" using assms by (simp add: add_pos_nonneg)
  moreover have "r + real k * p \<le> r + real (Suc k) * p"
    using assms by (simp add: algebra_simps)
  moreover have "0 \<le> p * r" using assms by simp
  ultimately show ?thesis
    by (intro divide_left_mono) (auto intro: mult_pos_pos add_pos_nonneg)
qed

text \<open>
  In exact arithmetic the scalar filter with \<open>f\<close> and \<open>h\<close> the identity, \<open>F = H = 1\<close>,
  \<open>qval = 0\<close>, \<open>pval > 0\<close> and \<open>rval > 0\<close> is constructed, every step with the constant
  measurement \<open>c\<close> succeeds, the \<open>1 \<times> 1\<close> covariance \<open>P_post\<close> never increases from one
  step to the next, and it tends to 0. This is a fact about the recursion over the
  reals only: in double precision the sum \<open>P_pre + R\<close> and the difference \<open>1 - G\<close> are
  rounded, and the covariance of the program can stay at a positive value for ever.
\<close>

lemma exact_scalar_covariance:
  assumes "0 < pval" and "0 < rval"
  shows "EKF_init scalar_model 1 1 pval 0 rval = Inr (scalar_filter 0 pval 0 rval 1)
     \<and> (\<forall>k. (\<exists>out. fst (step scalar_model
                  (steps scalar_model [c] k (scalar_filter 0 pval 0 rval 1)) [c]) = Inr out)
            \<and> is_shape (self_P_post (steps scalar_model [c] k (scalar_filter 0 pval 0 rval 1))) 1 1
            \<and> P_post_value (steps scalar_model [c] (Suc k) (scalar_filter 0 pval 0 rval 1))
                \<le> P_post_value (steps scalar_model [c] k (scalar_filter 0 pval 0 rval 1)))
     \<and> (\<lambda>k. P_post_value (steps scalar_model [c] k (scalar_filter 0 pval 0 rval 1)))
           \<longlonglongrightarrow> 0"
proof -
  note st = scalar_steps [OF assms scalar_state_filter]
  have val: "P_post_value (steps scalar_model [c] k (scalar_filter 0 pval 0 rval 1))
               = pval * rval / (rval + real k * pval)" for k
    by (rule P_post_value_scalar_state [OF st])
  have sh: "is_shape (self_P_post (steps scalar_model [c] k (scalar_filter 0 pval 0 rval 1))) 1 1" for k
    using st by (simp add: scalar_state_def)
  have ok: "\<exists>out. fst (step scalar_model
                  (steps scalar_model [c] k (scalar_filter 0 pval 0 rval 1)) [c]) = Inr out" for k
    by (rule scalar_steps_succeed [OF assms scalar_state_filter])
  have dec: "P_post_value (steps scalar_model [c] (Suc k) (scalar_filter 0 pval 0 rval 1))
                \<le> P_post_value (steps scalar_model [c] k (scalar_filter 0 pval 0 rval 1))" for k
    unfolding val by (rule scalar_decreasing [OF assms])
  have lim: "(\<lambda>k. P_post_value (steps scalar_model [c] k (scalar_filter 0 pval 0 rval 1)))
           \<longlonglongrightarrow> 0"
    unfolding val by (rule scalar_limit [OF assms])
  from init_scalar_model [of pval 0 rval] ok sh dec lim show ?thesis
    by blast
qed


end
